theory Spec2Isabelle
  imports Complex_Main "HOL-Library.Word"
begin

section \<open>The asynchronous routing dispatcher (routing/async_router.cpp)\<close>

text \<open>
  The dispatcher hands route requests to one background worker and delivers the
  results as tasks on the GUI thread. The embedding is sequential: the state of the
  dispatcher object is a record, everything outside it that the code acts on (the
  delegate proxies, which are shared by pointer, the GUI task queue, the user
  callbacks that have run, the calls made to the engine and to the fetcher, the log)
  is a second record, and every member function is a function on the two. What the
  external collaborators do during one call (what the engine returns or throws, the
  progress it reports, what the fetcher answers, the clock) is a parameter of the
  worker's function. One execution of the worker's body is one step: calls of the
  public interface that would arrive while the engine is computing are outside this
  model.
\<close>

subsection \<open>Data\<close>

text \<open>Doubles and floats are only carried around and formatted, never computed with.\<close>

type_synonym double = real

datatype RouterResultCode =
    NoError
  | Cancelled
  | StartPointNotFound
  | EndPointNotFound
  | PointsInDifferentMWM
  | RouteNotFound
  | NeedMoreMaps
  | InternalError
  | FileTooOld
  | IntermediatePointNotFound
  | TransitRouteNotFoundNoNetwork
  | TransitRouteNotFoundTooLongPedestrian
  | RouteNotFoundRedressRouteError
  | NoCurrentPosition
  | InconsistentMWMandRoute
  | RouteFileNotExist

record PointD =
  pt_x :: double
  pt_y :: double

text \<open>
  Modelled from the spec: the class Checkpoints is declared in another file. The spec
  gives it a start, a finish and optional intermediate points; the dispatcher only
  copies it and reads its two ends.
\<close>

record Checkpoints =
  GetStart :: PointD
  GetIntermediate :: "PointD list"
  GetFinish :: PointD

text \<open>
  A function object (std::function) is known by its identity; the null function is
  \<open>None\<close>. Calling one is recorded as an event.
\<close>

type_synonym callback = nat

text \<open>
  Of a route the dispatcher knows the two arguments it constructs it with. What the
  engine writes into the route is read back through GetTotalDistanceMeters only, and
  that value belongs to the engine's behaviour (\<open>er_routeLengthM\<close> below).
\<close>

record Route =
  route_router :: string
  route_id :: "64 word"

record IRouter =
  router_obj :: nat
  GetName :: string

type_synonym IOnlineFetcher = nat

text \<open>
  Modelled from the spec: the engine-delegate sub-object of a proxy (class
  RouterDelegate, declared in another file) conveys cancellation and timeout into the
  engine: Cancel sets its flag, Reset clears it, IsCancelled reads it, SetTimeout stores
  the timeout. Its two listeners are bound to the proxy's own OnPointCheck and
  OnProgress, which is how \<open>run_emit\<close> below calls them.
\<close>

record RouterDelegate =
  d_cancelled :: bool
  d_timeoutSec :: "32 word"

definition RouterDelegate_Reset :: "RouterDelegate \<Rightarrow> RouterDelegate" where
  "RouterDelegate_Reset d = d\<lparr>d_cancelled := False\<rparr>"

definition RouterDelegate_Cancel :: "RouterDelegate \<Rightarrow> RouterDelegate" where
  "RouterDelegate_Cancel d = d\<lparr>d_cancelled := True\<rparr>"

definition RouterDelegate_IsCancelled :: "RouterDelegate \<Rightarrow> bool" where
  "RouterDelegate_IsCancelled d = d_cancelled d"

definition RouterDelegate_SetTimeout :: "32 word \<Rightarrow> RouterDelegate \<Rightarrow> RouterDelegate" where
  "RouterDelegate_SetTimeout t d = d\<lparr>d_timeoutSec := t\<rparr>"

text \<open>
  The proxy. Its member m_delegate (the RouterDelegate) is named \<open>m_routerDelegate\<close>
  here, since the dispatcher has a member m_delegate too (the pointer to the proxy).
\<close>

record RouterDelegateProxy =
  m_onReadyOwnership :: "callback option"
  m_onNeedMoreMaps :: "callback option"
  m_removeRoute :: "callback option"
  m_onPointCheck :: "callback option"
  m_onProgress :: "callback option"
  m_routerDelegate :: RouterDelegate

text \<open>The closures handed to the GUI thread, each with what it captures.\<close>

datatype ui_task =
    TaskSendStatistics Checkpoints PointD RouterResultCode double double "callback option" string
  | TaskSendStatisticsException Checkpoints PointD string "callback option" string
  | TaskOnReady nat Route RouterResultCode
  | TaskOnNeedMoreMaps nat "64 word" "string list"
  | TaskOnRemoveRoute nat RouterResultCode
  | TaskOnProgress callback double
  | TaskOnPointCheck callback PointD

text \<open>The calls of user code: the five callbacks of a request and the statistics sink.\<close>

datatype event =
    CallOnReady callback Route RouterResultCode
  | CallOnNeedMoreMaps callback "64 word" "string list"
  | CallRemoveRoute callback RouterResultCode
  | CallOnProgress callback double
  | CallOnPointCheck callback PointD
  | CallStatistics callback "string \<rightharpoonup> string"

text \<open>The calls that reach the engine and the fetcher.\<close>

datatype ext_call =
    RouterCalculateRoute IRouter Checkpoints PointD bool nat Route
  | RouterClearState IRouter
  | FetcherGenerateRequest IOnlineFetcher Checkpoints
  | FetcherGetAbsentCountries IOnlineFetcher

datatype log_level = LINFO | LWARNING | LERROR

datatype log_entry =
    LogCalculating Checkpoints PointD string
  | LogLine log_level string "double option"
  | LogException string

record world =
  heap :: "RouterDelegateProxy list"
  gui :: "ui_task list"
  trace :: "event list"
  calls :: "ext_call list"
  logs :: "log_entry list"

text \<open>
  CHECK aborts the process when its condition fails; an exception that nothing
  catches leaves the thread function and ends the process as well.
\<close>

datatype error = CheckFailed | UncaughtException

record AsyncRouter =
  m_threadExit :: bool
  m_hasRequest :: bool
  m_clearState :: bool
  m_routingStatisticsCallback :: "callback option"
  m_pointCheckCallback :: "callback option"
  m_router :: "IRouter option"
  m_absentFetcher :: "IOnlineFetcher option"
  m_checkpoints :: Checkpoints
  m_startDirection :: PointD
  m_adjustToPrevRoute :: bool
  m_delegate :: "nat option"
  m_routeCounter :: "64 word"

subsection \<open>Statistics\<close>

text \<open>
  The formatting functions (strings::to_string_dac, strings::to_string,
  MercatorBounds::XToLon and YToLat, DebugPrint of a result code) live in other files:
  they are parameters.
\<close>

record formatters =
  to_string_dac :: "double \<Rightarrow> nat \<Rightarrow> string"
  to_string :: "double \<Rightarrow> string"
  XToLon :: "double \<Rightarrow> double"
  YToLat :: "double \<Rightarrow> double"
  DebugPrint :: "RouterResultCode \<Rightarrow> string"

text \<open>std::map::emplace keeps the entry that is already there.\<close>

definition emplace :: "string \<Rightarrow> string \<Rightarrow> (string \<rightharpoonup> string) \<Rightarrow> (string \<rightharpoonup> string)" where
  "emplace k v m = (case m k of None \<Rightarrow> m(k \<mapsto> v) | Some u \<Rightarrow> m)"

definition PrepareStatisticsData ::
  "formatters \<Rightarrow> string \<Rightarrow> PointD \<Rightarrow> PointD \<Rightarrow> PointD \<Rightarrow> (string \<rightharpoonup> string)" where
  "PrepareStatisticsData fmt routerName startPoint startDirection finalPoint =
     (let precision = 5 in
      fold (\<lambda>(k, v). emplace k v)
        [(''name'', routerName),
         (''startLon'', to_string_dac fmt (XToLon fmt (pt_x startPoint)) precision),
         (''startLat'', to_string_dac fmt (YToLat fmt (pt_y startPoint)) precision),
         (''startDirectionX'', to_string_dac fmt (pt_x startDirection) precision),
         (''startDirectionY'', to_string_dac fmt (pt_y startDirection) precision),
         (''finalLon'', to_string_dac fmt (XToLon fmt (pt_x finalPoint)) precision),
         (''finalLat'', to_string_dac fmt (YToLat fmt (pt_y finalPoint)) precision)]
        Map.empty)"

definition SendStatistics ::
  "formatters \<Rightarrow> PointD \<Rightarrow> PointD \<Rightarrow> PointD \<Rightarrow> RouterResultCode \<Rightarrow> double \<Rightarrow> double \<Rightarrow>
     callback option \<Rightarrow> string \<Rightarrow> world \<Rightarrow> world" where
  "SendStatistics fmt startPoint startDirection finalPoint resultCode routeLenM elapsedSec
       routingStatisticsCallback routerName w =
     (case routingStatisticsCallback of
        None \<Rightarrow> w
      | Some sink \<Rightarrow>
          (let statistics = PrepareStatisticsData fmt routerName startPoint startDirection finalPoint;
               statistics = emplace ''result'' (DebugPrint fmt resultCode) statistics;
               statistics = emplace ''elapsed'' (to_string fmt elapsedSec) statistics;
               statistics = (if NoError = resultCode
                             then emplace ''distance'' (to_string fmt routeLenM) statistics
                             else statistics)
           in w\<lparr>trace := trace w @ [CallStatistics sink statistics]\<rparr>))"

text \<open>The second overload of SendStatistics, for a caught exception.\<close>

definition SendStatistics_exception ::
  "formatters \<Rightarrow> PointD \<Rightarrow> PointD \<Rightarrow> PointD \<Rightarrow> string \<Rightarrow> callback option \<Rightarrow> string \<Rightarrow>
     world \<Rightarrow> world" where
  "SendStatistics_exception fmt startPoint startDirection finalPoint exceptionMessage
       routingStatisticsCallback routerName w =
     (case routingStatisticsCallback of
        None \<Rightarrow> w
      | Some sink \<Rightarrow>
          (let statistics = PrepareStatisticsData fmt routerName startPoint startDirection finalPoint;
               statistics = emplace ''exception'' exceptionMessage statistics
           in w\<lparr>trace := trace w @ [CallStatistics sink statistics]\<rparr>))"

subsection \<open>The delegate proxy\<close>

text \<open>
  A proxy is reached through a shared pointer: an index into \<open>heap\<close>. A pointer that
  is held always points to a proxy, so the \<open>None\<close> branches below are never taken.
\<close>

definition proxy_at :: "world \<Rightarrow> nat \<Rightarrow> RouterDelegateProxy option" where
  "proxy_at w p = (if p < length (heap w) then Some (heap w ! p) else None)"

text \<open>Platform::RunTask on the GUI thread, and the member RunOnGuiThread that wraps it.\<close>

definition RunOnGuiThread :: "ui_task \<Rightarrow> world \<Rightarrow> world" where
  "RunOnGuiThread t w = w\<lparr>gui := gui w @ [t]\<rparr>"

definition RouterDelegateProxy_new ::
  "callback option \<Rightarrow> callback option \<Rightarrow> callback option \<Rightarrow> callback option \<Rightarrow>
     callback option \<Rightarrow> 32 word \<Rightarrow> RouterDelegateProxy" where
  "RouterDelegateProxy_new onReady onNeedMoreMaps removeRoute onPointCheck onProgress timeoutSec =
     \<lparr>m_onReadyOwnership = onReady,
      m_onNeedMoreMaps = onNeedMoreMaps,
      m_removeRoute = removeRoute,
      m_onPointCheck = onPointCheck,
      m_onProgress = onProgress,
      m_routerDelegate =
        RouterDelegate_SetTimeout timeoutSec
          (RouterDelegate_Reset \<lparr>d_cancelled = False, d_timeoutSec = 0\<rparr>)\<rparr>"

definition OnReady :: "nat \<Rightarrow> Route \<Rightarrow> RouterResultCode \<Rightarrow> world \<Rightarrow> world" where
  "OnReady p route resultCode w =
     (case proxy_at w p of
        None \<Rightarrow> w
      | Some this \<Rightarrow>
          (case m_onReadyOwnership this of
             None \<Rightarrow> w
           | Some cb \<Rightarrow>
               if RouterDelegate_IsCancelled (m_routerDelegate this) then w
               else w\<lparr>trace := trace w @ [CallOnReady cb route resultCode]\<rparr>))"

definition OnNeedMoreMaps :: "nat \<Rightarrow> 64 word \<Rightarrow> string list \<Rightarrow> world \<Rightarrow> world" where
  "OnNeedMoreMaps p routeId absentCounties w =
     (case proxy_at w p of
        None \<Rightarrow> w
      | Some this \<Rightarrow>
          (case m_onNeedMoreMaps this of
             None \<Rightarrow> w
           | Some cb \<Rightarrow>
               if RouterDelegate_IsCancelled (m_routerDelegate this) then w
               else w\<lparr>trace := trace w @ [CallOnNeedMoreMaps cb routeId absentCounties]\<rparr>))"

definition OnRemoveRoute :: "nat \<Rightarrow> RouterResultCode \<Rightarrow> world \<Rightarrow> world" where
  "OnRemoveRoute p resultCode w =
     (case proxy_at w p of
        None \<Rightarrow> w
      | Some this \<Rightarrow>
          (case m_removeRoute this of
             None \<Rightarrow> w
           | Some cb \<Rightarrow>
               if RouterDelegate_IsCancelled (m_routerDelegate this) then w
               else w\<lparr>trace := trace w @ [CallRemoveRoute cb resultCode]\<rparr>))"

definition Cancel :: "nat \<Rightarrow> world \<Rightarrow> world" where
  "Cancel p w =
     (case proxy_at w p of
        None \<Rightarrow> w
      | Some this \<Rightarrow>
          w\<lparr>heap := (heap w)[p := this\<lparr>m_routerDelegate :=
                                      RouterDelegate_Cancel (m_routerDelegate this)\<rparr>]\<rparr>)"

definition OnProgress :: "nat \<Rightarrow> double \<Rightarrow> world \<Rightarrow> world" where
  "OnProgress p progress w =
     (case proxy_at w p of
        None \<Rightarrow> w
      | Some this \<Rightarrow>
          (case m_onProgress this of
             None \<Rightarrow> w
           | Some onProgress \<Rightarrow>
               if RouterDelegate_IsCancelled (m_routerDelegate this) then w
               else RunOnGuiThread (TaskOnProgress onProgress progress) w))"

text \<open>
  OnPointCheck has a body only when SHOW_ROUTE_DEBUG_MARKS is defined; the macro is the
  first argument. With it, a null point-check callback fails the CHECK.
\<close>

definition OnPointCheck :: "bool \<Rightarrow> nat \<Rightarrow> PointD \<Rightarrow> world \<Rightarrow> error + world" where
  "OnPointCheck SHOW_ROUTE_DEBUG_MARKS p pt w =
     (if SHOW_ROUTE_DEBUG_MARKS then
        (case proxy_at w p of
           None \<Rightarrow> Inr w
         | Some this \<Rightarrow>
             (case m_onPointCheck this of
                None \<Rightarrow> Inl CheckFailed
              | Some onPointCheck \<Rightarrow>
                  if RouterDelegate_IsCancelled (m_routerDelegate this) then Inr w
                  else Inr (RunOnGuiThread (TaskOnPointCheck onPointCheck pt) w)))
      else Inr w)"

text \<open>
  Any sequence of calls on one proxy, to state what holds "from then on". A failed
  CHECK ends the run.
\<close>

datatype proxy_op =
    OpOnReady Route RouterResultCode
  | OpOnNeedMoreMaps "64 word" "string list"
  | OpOnRemoveRoute RouterResultCode
  | OpOnProgress double
  | OpOnPointCheck PointD
  | OpCancel

fun proxy_call :: "bool \<Rightarrow> nat \<Rightarrow> proxy_op \<Rightarrow> world \<Rightarrow> error + world" where
  "proxy_call dbg p (OpOnReady route code) w = Inr (OnReady p route code w)"
| "proxy_call dbg p (OpOnNeedMoreMaps routeId absent) w = Inr (OnNeedMoreMaps p routeId absent w)"
| "proxy_call dbg p (OpOnRemoveRoute code) w = Inr (OnRemoveRoute p code w)"
| "proxy_call dbg p (OpOnProgress progress) w = Inr (OnProgress p progress w)"
| "proxy_call dbg p (OpOnPointCheck pt) w = OnPointCheck dbg p pt w"
| "proxy_call dbg p OpCancel w = Inr (Cancel p w)"

fun proxy_calls :: "bool \<Rightarrow> nat \<Rightarrow> proxy_op list \<Rightarrow> world \<Rightarrow> error + world" where
  "proxy_calls dbg p [] w = Inr w"
| "proxy_calls dbg p (c # cs) w =
     (case proxy_call dbg p c w of
        Inl e \<Rightarrow> Inl e
      | Inr w' \<Rightarrow> proxy_calls dbg p cs w')"

subsection \<open>The GUI thread\<close>

text \<open>Running a task is calling the closure's body; the queue is first in, first out.\<close>

fun run_task :: "formatters \<Rightarrow> ui_task \<Rightarrow> world \<Rightarrow> world" where
  "run_task fmt (TaskSendStatistics checkpoints startDirection code routeLengthM elapsedSec
       routingStatisticsCallback routerName) w =
     SendStatistics fmt (GetStart checkpoints) startDirection (GetFinish checkpoints) code
       routeLengthM elapsedSec routingStatisticsCallback routerName w"
| "run_task fmt (TaskSendStatisticsException checkpoints startDirection msg
       routingStatisticsCallback routerName) w =
     SendStatistics_exception fmt (GetStart checkpoints) startDirection (GetFinish checkpoints) msg
       routingStatisticsCallback routerName w"
| "run_task fmt (TaskOnReady delegate route code) w = OnReady delegate route code w"
| "run_task fmt (TaskOnNeedMoreMaps delegate routeId absent) w =
     OnNeedMoreMaps delegate routeId absent w"
| "run_task fmt (TaskOnRemoveRoute delegate code) w = OnRemoveRoute delegate code w"
| "run_task fmt (TaskOnProgress onProgress progress) w =
     w\<lparr>trace := trace w @ [CallOnProgress onProgress progress]\<rparr>"
| "run_task fmt (TaskOnPointCheck onPointCheck point) w =
     w\<lparr>trace := trace w @ [CallOnPointCheck onPointCheck point]\<rparr>"

definition gui_step :: "formatters \<Rightarrow> world \<Rightarrow> world" where
  "gui_step fmt w =
     (case gui w of
        [] \<Rightarrow> w
      | t # ts \<Rightarrow> run_task fmt t (w\<lparr>gui := ts\<rparr>))"

subsection \<open>The dispatcher's public interface\<close>

text \<open>
  Modelled from the spec: the members the constructor's initialiser list leaves out
  get their values in the header. The spec starts the route counter at 0; the engine,
  the fetcher and the delegate are null pointers; the pending-request fields are
  default-constructed, with values the code never reads before CalculateRoute has
  written them, so they are arguments here.
\<close>

definition AsyncRouter_new ::
  "callback option \<Rightarrow> callback option \<Rightarrow> Checkpoints \<Rightarrow> PointD \<Rightarrow> bool \<Rightarrow> AsyncRouter" where
  "AsyncRouter_new routingStatisticsCallback pointCheckCallback checkpoints0 direction0 adjust0 =
     \<lparr>m_threadExit = False,
      m_hasRequest = False,
      m_clearState = False,
      m_routingStatisticsCallback = routingStatisticsCallback,
      m_pointCheckCallback = pointCheckCallback,
      m_router = None,
      m_absentFetcher = None,
      m_checkpoints = checkpoints0,
      m_startDirection = direction0,
      m_adjustToPrevRoute = adjust0,
      m_delegate = None,
      m_routeCounter = 0\<rparr>"

definition ResetDelegate :: "AsyncRouter \<Rightarrow> world \<Rightarrow> AsyncRouter \<times> world" where
  "ResetDelegate r w =
     (case m_delegate r of
        Some d \<Rightarrow> (r\<lparr>m_delegate := None\<rparr>, Cancel d w)
      | None \<Rightarrow> (r, w))"

definition SetRouter ::
  "IRouter option \<Rightarrow> IOnlineFetcher option \<Rightarrow> AsyncRouter \<Rightarrow> world \<Rightarrow> AsyncRouter \<times> world" where
  "SetRouter router fetcher r w =
     (let (r1, w1) = ResetDelegate r w
      in (r1\<lparr>m_router := router, m_absentFetcher := fetcher\<rparr>, w1))"

text \<open>make_shared of a proxy: a new object at a new address.\<close>

definition make_shared_proxy :: "RouterDelegateProxy \<Rightarrow> world \<Rightarrow> nat \<times> world" where
  "make_shared_proxy px w = (length (heap w), w\<lparr>heap := heap w @ [px]\<rparr>)"

text \<open>The public overload of CalculateRoute: it files the request and wakes the worker.\<close>

definition CalculateRoute ::
  "Checkpoints \<Rightarrow> PointD \<Rightarrow> bool \<Rightarrow> callback option \<Rightarrow> callback option \<Rightarrow> callback option \<Rightarrow>
     callback option \<Rightarrow> 32 word \<Rightarrow> AsyncRouter \<Rightarrow> world \<Rightarrow> AsyncRouter \<times> world" where
  "CalculateRoute checkpoints direction adjustToPrevRoute readyCallback needMoreMapsCallback
       removeRouteCallback progressCallback timeoutSec r w =
     (let r1 = r\<lparr>m_checkpoints := checkpoints,
                 m_startDirection := direction,
                 m_adjustToPrevRoute := adjustToPrevRoute\<rparr>;
          (r2, w2) = ResetDelegate r1 w;
          (d, w3) = make_shared_proxy
                      (RouterDelegateProxy_new readyCallback needMoreMapsCallback
                         removeRouteCallback (m_pointCheckCallback r2) progressCallback timeoutSec)
                      w2
      in (r2\<lparr>m_delegate := Some d, m_hasRequest := True\<rparr>, w3))"

definition ClearState :: "AsyncRouter \<Rightarrow> world \<Rightarrow> AsyncRouter \<times> world" where
  "ClearState r w = ResetDelegate (r\<lparr>m_clearState := True\<rparr>) w"

subsection \<open>The worker\<close>

definition LogCode :: "RouterResultCode \<Rightarrow> double \<Rightarrow> log_entry" where
  "LogCode code elapsedSec =
     (case code of
        StartPointNotFound \<Rightarrow> LogLine LWARNING ''Can't find start or end node'' None
      | EndPointNotFound \<Rightarrow> LogLine LWARNING ''Can't find end point node'' None
      | PointsInDifferentMWM \<Rightarrow> LogLine LWARNING ''Points are in different MWMs'' None
      | RouteNotFound \<Rightarrow> LogLine LWARNING ''Route not found'' None
      | RouteFileNotExist \<Rightarrow> LogLine LWARNING ''There is no routing file'' None
      | NeedMoreMaps \<Rightarrow>
          LogLine LINFO ''Routing can find a better way with additional maps, elapsed seconds:''
            (Some elapsedSec)
      | Cancelled \<Rightarrow> LogLine LINFO ''Route calculation cancelled, elapsed seconds:'' (Some elapsedSec)
      | NoError \<Rightarrow> LogLine LINFO ''Route found, elapsed seconds:'' (Some elapsedSec)
      | NoCurrentPosition \<Rightarrow> LogLine LINFO ''No current position'' None
      | InconsistentMWMandRoute \<Rightarrow> LogLine LINFO ''Inconsistent mwm and route'' None
      | InternalError \<Rightarrow> LogLine LINFO ''Internal error'' None
      | FileTooOld \<Rightarrow> LogLine LINFO ''File too old'' None
      | IntermediatePointNotFound \<Rightarrow> LogLine LWARNING ''Can't find intermediate point node'' None
      | TransitRouteNotFoundNoNetwork \<Rightarrow>
          LogLine LWARNING
            ''No transit route is found because there's no transit network in the mwm of the route point''
            None
      | TransitRouteNotFoundTooLongPedestrian \<Rightarrow>
          LogLine LWARNING ''No transit route is found because pedestrian way is too long'' None
      | RouteNotFoundRedressRouteError \<Rightarrow>
          LogLine LWARNING ''Route not found because of a redress route error'' None)"

definition LOG :: "log_entry \<Rightarrow> world \<Rightarrow> world" where
  "LOG e w = w\<lparr>logs := logs w @ [e]\<rparr>"

definition call_out :: "ext_call \<Rightarrow> world \<Rightarrow> world" where
  "call_out c w = w\<lparr>calls := calls w @ [c]\<rparr>"

definition RunOnReadyOnGuiThread :: "nat \<Rightarrow> Route \<Rightarrow> RouterResultCode \<Rightarrow> world \<Rightarrow> world" where
  "RunOnReadyOnGuiThread delegate route code w = RunOnGuiThread (TaskOnReady delegate route code) w"

text \<open>
  What the collaborators do during one execution of the worker's body: the engine's
  calls of the delegate's listeners while it computes, how its CalculateRoute ends (a
  result code, an exception of the RootException family with its message, or any other
  exception), the length of the route it leaves, the two readings of the timer, and
  the list GetAbsentCountries fills in. The fetcher's two calls are taken to return.
\<close>

datatype engine_emit = EmitProgress double | EmitPointCheck PointD

datatype engine_outcome = Returned RouterResultCode | ThrewRoot string | ThrewOther

record engine_run =
  er_emits :: "engine_emit list"
  er_outcome :: engine_outcome
  er_routeLengthM :: double
  er_elapsed1 :: double
  er_absent :: "string list"
  er_elapsed2 :: double

fun run_emit :: "bool \<Rightarrow> nat \<Rightarrow> engine_emit \<Rightarrow> world \<Rightarrow> error + world" where
  "run_emit dbg delegate (EmitProgress progress) w = Inr (OnProgress delegate progress w)"
| "run_emit dbg delegate (EmitPointCheck pt) w = OnPointCheck dbg delegate pt w"

fun run_emits :: "bool \<Rightarrow> nat \<Rightarrow> engine_emit list \<Rightarrow> world \<Rightarrow> error + world" where
  "run_emits dbg delegate [] w = Inr w"
| "run_emits dbg delegate (e # es) w =
     (case run_emit dbg delegate e w of
        Inl err \<Rightarrow> Inl err
      | Inr w' \<Rightarrow> run_emits dbg delegate es w')"

text \<open>The locals of the worker's CalculateRoute that the locked block fills in.\<close>

record snapshot =
  l_delegate :: nat
  l_checkpoints :: Checkpoints
  l_startDirection :: PointD
  l_adjustToPrevRoute :: bool
  l_absentFetcher :: "IOnlineFetcher option"
  l_router :: IRouter
  l_routeId :: "64 word"
  l_routingStatisticsCallback :: "callback option"
  l_routerName :: string

text \<open>The locked block at the head of the worker's CalculateRoute.\<close>

definition take_snapshot :: "AsyncRouter \<Rightarrow> AsyncRouter \<times> snapshot option" where
  "take_snapshot r =
     (let hasRequest = m_hasRequest r;
          r1 = r\<lparr>m_hasRequest := False\<rparr>
      in if \<not> hasRequest then (r1, None)
         else case m_router r1 of
                None \<Rightarrow> (r1, None)
              | Some router \<Rightarrow>
                  (case m_delegate r1 of
                     None \<Rightarrow> (r1, None)
                   | Some delegate \<Rightarrow>
                       (let r2 = r1\<lparr>m_routeCounter := m_routeCounter r1 + 1\<rparr>
                        in (r2,
                            Some \<lparr>l_delegate = delegate,
                                  l_checkpoints = m_checkpoints r2,
                                  l_startDirection = m_startDirection r2,
                                  l_adjustToPrevRoute = m_adjustToPrevRoute r2,
                                  l_absentFetcher = m_absentFetcher r2,
                                  l_router = router,
                                  l_routeId = m_routeCounter r2,
                                  l_routingStatisticsCallback = m_routingStatisticsCallback r2,
                                  l_routerName = GetName router\<rparr>))))"

text \<open>From the statistics of a returned computation to the end of the function.\<close>

definition deliver :: "engine_run \<Rightarrow> snapshot \<Rightarrow> Route \<Rightarrow> RouterResultCode \<Rightarrow> world \<Rightarrow> world" where
  "deliver env l route code w =
     (let routeLengthM = er_routeLengthM env;
          w1 = RunOnGuiThread
                 (TaskSendStatistics (l_checkpoints l) (l_startDirection l) code routeLengthM
                    (er_elapsed1 env) (l_routingStatisticsCallback l) (l_routerName l)) w;
          w2 = (if code = NoError then RunOnReadyOnGuiThread (l_delegate l) route code w1 else w1);
          needFetchAbsent = (code \<noteq> Cancelled);
          (absent, w3) =
             (case l_absentFetcher l of
                Some fetcher \<Rightarrow>
                  if needFetchAbsent
                  then (er_absent env, call_out (FetcherGetAbsentCountries fetcher) w2)
                  else ([], w2)
              | None \<Rightarrow> ([], w2));
          code' = (if absent \<noteq> [] \<and> code = NoError then NeedMoreMaps else code);
          w4 = LOG (LogCode code' (er_elapsed2 env)) w3
      in if code' \<noteq> NoError
         then (if code' = NeedMoreMaps
               then RunOnGuiThread (TaskOnNeedMoreMaps (l_delegate l) (l_routeId l) absent) w4
               else RunOnGuiThread (TaskOnRemoveRoute (l_delegate l) code') w4)
         else w4)"

text \<open>The worker's CalculateRoute after the locked block.\<close>

definition execute :: "bool \<Rightarrow> engine_run \<Rightarrow> snapshot \<Rightarrow> world \<Rightarrow> error + world" where
  "execute dbg env l w =
     (let route = \<lparr>route_router = GetName (l_router l), route_id = l_routeId l\<rparr>;
          w0 = LOG (LogCalculating (l_checkpoints l) (l_startDirection l) (GetName (l_router l))) w;
          w1 = (case l_absentFetcher l of
                  Some fetcher \<Rightarrow> call_out (FetcherGenerateRequest fetcher (l_checkpoints l)) w0
                | None \<Rightarrow> w0);
          w2 = call_out (RouterCalculateRoute (l_router l) (l_checkpoints l) (l_startDirection l)
                           (l_adjustToPrevRoute l) (l_delegate l) route) w1
      in case run_emits dbg (l_delegate l) (er_emits env) w2 of
           Inl err \<Rightarrow> Inl err
         | Inr w3 \<Rightarrow>
             (case er_outcome env of
                Returned code \<Rightarrow> Inr (deliver env l route code (LOG (LogCode code (er_elapsed1 env)) w3))
              | ThrewRoot msg \<Rightarrow>
                  (let code = InternalError;
                       w4 = LOG (LogException msg) w3;
                       w5 = RunOnGuiThread
                              (TaskSendStatisticsException (l_checkpoints l) (l_startDirection l) msg
                                 (l_routingStatisticsCallback l) (l_routerName l)) w4
                   in Inr (RunOnReadyOnGuiThread (l_delegate l) route code w5))
              | ThrewOther \<Rightarrow> Inl UncaughtException))"

text \<open>The private overload of CalculateRoute, which the worker thread runs.\<close>

definition CalculateRoute_worker ::
  "bool \<Rightarrow> engine_run \<Rightarrow> AsyncRouter \<Rightarrow> world \<Rightarrow> error + AsyncRouter \<times> world" where
  "CalculateRoute_worker dbg env r w =
     (case take_snapshot r of
        (r', None) \<Rightarrow> Inr (r', w)
      | (r', Some l) \<Rightarrow>
          (case execute dbg env l w of
             Inl err \<Rightarrow> Inl err
           | Inr w' \<Rightarrow> Inr (r', w')))"

text \<open>
  One turn of the loop of ThreadFunc. The worker sleeps while the condition of the
  wait is false (\<open>Waiting\<close>: it goes on when another thread has changed the flags);
  \<open>Exited\<close> is the break, \<open>Again\<close> the next turn.
\<close>

datatype thread_status = Waiting | Exited | Again

definition ThreadFunc_turn ::
  "bool \<Rightarrow> engine_run \<Rightarrow> AsyncRouter \<Rightarrow> world \<Rightarrow> error + thread_status \<times> AsyncRouter \<times> world" where
  "ThreadFunc_turn dbg env r w =
     (if \<not> (m_threadExit r \<or> m_hasRequest r \<or> m_clearState r) then Inr (Waiting, r, w)
      else
        (let (r1, w1) =
               (case m_router r of
                  Some router \<Rightarrow>
                    if m_clearState r
                    then (r\<lparr>m_clearState := False\<rparr>, call_out (RouterClearState router) w)
                    else (r, w)
                | None \<Rightarrow> (r, w))
         in if m_threadExit r1 then Inr (Exited, r1, w1)
            else if \<not> m_hasRequest r1 then Inr (Again, r1, w1)
            else (case CalculateRoute_worker dbg env r1 w1 of
                    Inl err \<Rightarrow> Inl err
                  | Inr (r2, w2) \<Rightarrow> Inr (Again, r2, w2))))"

text \<open>
  The loop, with fuel: it can spin (clear-state set and no engine installed), so the
  number of turns is bounded from outside; \<open>envs n\<close> is what the collaborators do in
  the turn that has \<open>n\<close> turns left after it. A result \<open>Again\<close> says the fuel ran out.
\<close>

fun ThreadFunc ::
  "nat \<Rightarrow> bool \<Rightarrow> (nat \<Rightarrow> engine_run) \<Rightarrow> AsyncRouter \<Rightarrow> world \<Rightarrow>
     error + thread_status \<times> AsyncRouter \<times> world" where
  "ThreadFunc 0 dbg envs r w = Inr (Again, r, w)"
| "ThreadFunc (Suc n) dbg envs r w =
     (case ThreadFunc_turn dbg (envs n) r w of
        Inl err \<Rightarrow> Inl err
      | Inr (Again, r', w') \<Rightarrow> ThreadFunc n dbg envs r' w'
      | Inr (Waiting, r', w') \<Rightarrow> Inr (Waiting, r', w')
      | Inr (Exited, r', w') \<Rightarrow> Inr (Exited, r', w'))"

text \<open>
  The destructor: the locked block, then the join, which is the worker (asleep in its
  wait when the destructor runs) taking its turns until it leaves the loop.
\<close>

definition AsyncRouter_destroy ::
  "nat \<Rightarrow> bool \<Rightarrow> (nat \<Rightarrow> engine_run) \<Rightarrow> AsyncRouter \<Rightarrow> world \<Rightarrow>
     error + thread_status \<times> AsyncRouter \<times> world" where
  "AsyncRouter_destroy fuel dbg envs r w =
     (let (r1, w1) = ResetDelegate r w;
          r2 = r1\<lparr>m_threadExit := True\<rparr>
      in ThreadFunc fuel dbg envs r2 w1)"

subsection \<open>Runs of the whole system\<close>

text \<open>
  The steps a live dispatcher takes, in any order: a call of its public interface, a
  turn of the worker, the GUI thread running its oldest task.
\<close>

datatype action =
    ActSetRouter "IRouter option" "IOnlineFetcher option"
  | ActCalculateRoute Checkpoints PointD bool "callback option" "callback option"
      "callback option" "callback option" "32 word"
  | ActClearState
  | ActWorker engine_run
  | ActGui

fun step :: "formatters \<Rightarrow> bool \<Rightarrow> action \<Rightarrow> AsyncRouter \<times> world \<Rightarrow> error + AsyncRouter \<times> world" where
  "step fmt dbg (ActSetRouter router fetcher) (r, w) = Inr (SetRouter router fetcher r w)"
| "step fmt dbg (ActCalculateRoute checkpoints direction adjust onReady onNeedMoreMaps
       onRemoveRoute onProgress timeoutSec) (r, w) =
     Inr (CalculateRoute checkpoints direction adjust onReady onNeedMoreMaps onRemoveRoute
            onProgress timeoutSec r w)"
| "step fmt dbg ActClearState (r, w) = Inr (ClearState r w)"
| "step fmt dbg (ActWorker env) (r, w) =
     (case ThreadFunc_turn dbg env r w of
        Inl err \<Rightarrow> Inl err
      | Inr (st, r', w') \<Rightarrow> Inr (r', w'))"
| "step fmt dbg ActGui (r, w) = Inr (r, gui_step fmt w)"

fun run :: "formatters \<Rightarrow> bool \<Rightarrow> action list \<Rightarrow> AsyncRouter \<times> world \<Rightarrow> error + AsyncRouter \<times> world" where
  "run fmt dbg [] s = Inr s"
| "run fmt dbg (a # as) s =
     (case step fmt dbg a s of
        Inl err \<Rightarrow> Inl err
      | Inr s' \<Rightarrow> run fmt dbg as s')"

text \<open>The ids of the routes handed to the engine, oldest first; counting tasks and calls.\<close>

fun produced_ids :: "ext_call list \<Rightarrow> 64 word list" where
  "produced_ids [] = []"
| "produced_ids (RouterCalculateRoute router cps dir adj d route # cs) = route_id route # produced_ids cs"
| "produced_ids (c # cs) = produced_ids cs"

fun is_OnReady :: "ui_task \<Rightarrow> bool" where
  "is_OnReady (TaskOnReady d route code) = True"
| "is_OnReady t = False"

fun is_secondary :: "ui_task \<Rightarrow> bool" where
  "is_secondary (TaskOnNeedMoreMaps d routeId absent) = True"
| "is_secondary (TaskOnRemoveRoute d code) = True"
| "is_secondary t = False"

fun is_GetAbsentCountries :: "ext_call \<Rightarrow> bool" where
  "is_GetAbsentCountries (FetcherGetAbsentCountries f) = True"
| "is_GetAbsentCountries c = False"

text \<open>What an execution added to a list that only grows.\<close>

definition added :: "'a list \<Rightarrow> 'a list \<Rightarrow> 'a list" where
  "added before after = drop (length before) after"

text \<open>The cancellation flag of the proxy at an address.\<close>

definition is_cancelled :: "world \<Rightarrow> nat \<Rightarrow> bool" where
  "is_cancelled w p =
     (case proxy_at w p of
        None \<Rightarrow> False
      | Some this \<Rightarrow> RouterDelegate_IsCancelled (m_routerDelegate this))"

text \<open>The tasks that the proxy's two listeners post while the engine computes.\<close>

fun is_listener :: "ui_task \<Rightarrow> bool" where
  "is_listener (TaskOnProgress cb progress) = True"
| "is_listener (TaskOnPointCheck cb pt) = True"
| "is_listener t = False"

subsection \<open>Sample values\<close>

text \<open>
  A formatter, a request and the behaviours of the collaborators on which the closed
  instances of the theorems below are computed.
\<close>

definition ex_fmt :: formatters where
  "ex_fmt =
     \<lparr>to_string_dac = (\<lambda>v n. ''0.00000''),
      to_string = (\<lambda>v. ''0''),
      XToLon = (\<lambda>v. v),
      YToLat = (\<lambda>v. v),
      DebugPrint = (\<lambda>c. ''code'')\<rparr>"

definition ex_point :: PointD where
  "ex_point = \<lparr>pt_x = 0, pt_y = 0\<rparr>"

definition ex_checkpoints :: Checkpoints where
  "ex_checkpoints = \<lparr>GetStart = ex_point, GetIntermediate = [], GetFinish = \<lparr>pt_x = 1, pt_y = 1\<rparr>\<rparr>"

definition ex_router :: IRouter where
  "ex_router = \<lparr>router_obj = 0, GetName = ''vehicle''\<rparr>"

definition ex_world :: world where
  "ex_world = \<lparr>heap = [], gui = [], trace = [], calls = [], logs = []\<rparr>"

definition ex_dispatcher :: AsyncRouter where
  "ex_dispatcher = AsyncRouter_new (Some 0) None ex_checkpoints ex_point False"

definition ex_request :: action where
  "ex_request =
     ActCalculateRoute ex_checkpoints ex_point False (Some 1) (Some 2) (Some 3) (Some 4) 30"

definition ex_env :: "engine_outcome \<Rightarrow> string list \<Rightarrow> engine_run" where
  "ex_env outcome absent =
     \<lparr>er_emits = [EmitProgress 1],
      er_outcome = outcome,
      er_routeLengthM = 1500,
      er_elapsed1 = 2,
      er_absent = absent,
      er_elapsed2 = 3\<rparr>"

text \<open>The dispatcher with an engine and a fetcher installed and one request filed.\<close>

definition ex_filed :: "AsyncRouter \<times> world" where
  "ex_filed =
     (case SetRouter (Some ex_router) (Some 7) ex_dispatcher ex_world of
        (r, w) \<Rightarrow>
          CalculateRoute ex_checkpoints ex_point False (Some 1) (Some 2) (Some 3) (Some 4) 30 r w)"

text \<open>A request filed on a dispatcher that has no engine.\<close>

definition ex_unrouted :: "AsyncRouter \<times> world" where
  "ex_unrouted =
     CalculateRoute ex_checkpoints ex_point False (Some 1) (Some 2) (Some 3) (Some 4) 30
       ex_dispatcher ex_world"

text \<open>The proxy a task calls when it runs, for the tasks that go through one.\<close>

fun task_delegate :: "ui_task \<Rightarrow> nat option" where
  "task_delegate (TaskOnReady d route code) = Some d"
| "task_delegate (TaskOnNeedMoreMaps d routeId absent) = Some d"
| "task_delegate (TaskOnRemoveRoute d code) = Some d"
| "task_delegate t = None"

fun is_api_call :: "action \<Rightarrow> bool" where
  "is_api_call (ActWorker env) = False"
| "is_api_call ActGui = False"
| "is_api_call a = True"

text \<open>The ids \<open>c + 1, ..., c + n\<close>, in the arithmetic of the counter.\<close>

definition ids_from :: "64 word \<Rightarrow> nat \<Rightarrow> 64 word list" where
  "ids_from c n = map (\<lambda>k. c + of_nat k) [1..<Suc n]"

text \<open>
  The same request filed and executed \<open>n\<close> times over, the engine returning NoError
  each time.
\<close>

definition ex_rounds :: "nat \<Rightarrow> action list" where
  "ex_rounds n = concat (replicate n [ex_request, ActWorker (ex_env (Returned NoError) [])])"

section \<open>Properties\<close>

subsection \<open>Cancellation is permanent and silences the proxy\<close>

lemma is_cancelled_heap: "heap w' = heap w \<Longrightarrow> is_cancelled w' p = is_cancelled w p"
  by (simp add: is_cancelled_def proxy_at_def)

lemma is_cancelled_Cancel: "p < length (heap w) \<Longrightarrow> is_cancelled (Cancel p w) p"
  by (simp add: is_cancelled_def Cancel_def proxy_at_def RouterDelegate_IsCancelled_def
      RouterDelegate_Cancel_def)

lemma is_cancelled_Cancel_other: "is_cancelled w p \<Longrightarrow> is_cancelled (Cancel q w) p"
  by (cases "q = p")
     (auto simp: is_cancelled_def Cancel_def proxy_at_def RouterDelegate_IsCancelled_def
        RouterDelegate_Cancel_def split: if_splits)

lemma heap_RunOnGuiThread: "heap (RunOnGuiThread t w) = heap w"
  by (simp add: RunOnGuiThread_def)

lemma heap_LOG: "heap (LOG e w) = heap w"
  by (simp add: LOG_def)

lemma heap_call_out: "heap (call_out c w) = heap w"
  by (simp add: call_out_def)

lemma heap_OnReady: "heap (OnReady p route code w) = heap w"
  by (simp add: OnReady_def split: option.splits)

lemma heap_OnNeedMoreMaps: "heap (OnNeedMoreMaps p i a w) = heap w"
  by (simp add: OnNeedMoreMaps_def split: option.splits)

lemma heap_OnRemoveRoute: "heap (OnRemoveRoute p code w) = heap w"
  by (simp add: OnRemoveRoute_def split: option.splits)

lemma heap_OnProgress: "heap (OnProgress p x w) = heap w"
  by (simp add: OnProgress_def heap_RunOnGuiThread split: option.splits)

lemma heap_OnPointCheck: "OnPointCheck dbg p pt w = Inr w' \<Longrightarrow> heap w' = heap w"
  by (auto simp: OnPointCheck_def heap_RunOnGuiThread split: option.splits if_splits)

lemma heap_run_emits: "run_emits dbg d es w = Inr w' \<Longrightarrow> heap w' = heap w"
proof (induction es arbitrary: w)
  case Nil
  then show ?case by simp
next
  case (Cons e es)
  then show ?case
    by (cases e) (auto simp: heap_OnProgress split: sum.splits dest: heap_OnPointCheck)
qed

lemma heap_SendStatistics: "heap (SendStatistics fmt a b c code len el cb name w) = heap w"
  by (simp add: SendStatistics_def Let_def split: option.splits)

lemma heap_SendStatistics_exception: "heap (SendStatistics_exception fmt a b c msg cb name w) = heap w"
  by (simp add: SendStatistics_exception_def Let_def split: option.splits)

lemma heap_run_task: "heap (run_task fmt t w) = heap w"
  by (cases t)
     (simp_all add: heap_SendStatistics heap_SendStatistics_exception heap_OnReady
        heap_OnNeedMoreMaps heap_OnRemoveRoute)

lemma heap_gui_step: "heap (gui_step fmt w) = heap w"
  by (simp add: gui_step_def heap_run_task split: list.splits)

lemma heap_deliver: "heap (deliver env l route code w) = heap w"
  by (simp add: deliver_def Let_def heap_RunOnGuiThread heap_LOG heap_call_out
      RunOnReadyOnGuiThread_def split: option.splits prod.splits)

lemma heap_execute: "execute dbg env l w = Inr w' \<Longrightarrow> heap w' = heap w"
  by (auto simp: execute_def Let_def heap_RunOnGuiThread heap_LOG heap_call_out heap_deliver
      RunOnReadyOnGuiThread_def split: option.splits sum.splits engine_outcome.splits
      dest!: heap_run_emits)

lemma heap_CalculateRoute_worker:
  "CalculateRoute_worker dbg env r w = Inr (r', w') \<Longrightarrow> heap w' = heap w"
  by (auto simp: CalculateRoute_worker_def split: prod.splits option.splits sum.splits
      dest: heap_execute)

lemma heap_ThreadFunc_turn:
  "ThreadFunc_turn dbg env r w = Inr (st, r', w') \<Longrightarrow> heap w' = heap w"
  by (auto simp: ThreadFunc_turn_def Let_def heap_call_out
      split: if_splits option.splits sum.splits prod.splits
      dest!: heap_CalculateRoute_worker)

lemma is_cancelled_ResetDelegate:
  "is_cancelled w p \<Longrightarrow> ResetDelegate r w = (r', w') \<Longrightarrow> is_cancelled w' p"
  by (auto simp: ResetDelegate_def is_cancelled_Cancel_other split: option.splits)

lemma is_cancelled_make_shared_proxy:
  "is_cancelled w p \<Longrightarrow> make_shared_proxy px w = (d, w') \<Longrightarrow> is_cancelled w' p"
  by (auto simp: make_shared_proxy_def is_cancelled_def proxy_at_def nth_append split: if_splits)

lemma is_cancelled_step:
  "is_cancelled w p \<Longrightarrow> step fmt dbg a (r, w) = Inr (r', w') \<Longrightarrow> is_cancelled w' p"
proof (cases a)
  case (ActSetRouter router fetcher)
  assume "is_cancelled w p" "step fmt dbg a (r, w) = Inr (r', w')"
  with ActSetRouter show ?thesis
    by (auto simp: SetRouter_def Let_def split: prod.splits dest: is_cancelled_ResetDelegate)
next
  case (ActCalculateRoute cps dir adj c1 c2 c3 c4 t)
  assume "is_cancelled w p" "step fmt dbg a (r, w) = Inr (r', w')"
  with ActCalculateRoute show ?thesis
    by (auto simp: CalculateRoute_def Let_def split: prod.splits
        dest: is_cancelled_ResetDelegate is_cancelled_make_shared_proxy)
next
  case ActClearState
  assume "is_cancelled w p" "step fmt dbg a (r, w) = Inr (r', w')"
  with ActClearState show ?thesis
    by (auto simp: ClearState_def dest: is_cancelled_ResetDelegate)
next
  case (ActWorker env)
  assume "is_cancelled w p" "step fmt dbg a (r, w) = Inr (r', w')"
  with ActWorker obtain st where "ThreadFunc_turn dbg env r w = Inr (st, r', w')"
    by (auto split: sum.splits prod.splits)
  then have "heap w' = heap w" by (rule heap_ThreadFunc_turn)
  with \<open>is_cancelled w p\<close> show ?thesis by (simp add: is_cancelled_heap [of w' w])
next
  case ActGui
  assume "is_cancelled w p" "step fmt dbg a (r, w) = Inr (r', w')"
  with ActGui have "heap w' = heap w" by (auto simp: heap_gui_step)
  with \<open>is_cancelled w p\<close> show ?thesis by (simp add: is_cancelled_heap [of w' w])
qed

lemma is_cancelled_run:
  "is_cancelled w p \<Longrightarrow> run fmt dbg acts (r, w) = Inr (r', w') \<Longrightarrow> is_cancelled w' p"
proof (induction acts arbitrary: r w)
  case Nil
  then show ?case by simp
next
  case (Cons a acts)
  then obtain r1 w1 where s: "step fmt dbg a (r, w) = Inr (r1, w1)"
    and rest: "run fmt dbg acts (r1, w1) = Inr (r', w')"
    by (auto split: sum.splits)
  from Cons.prems(1) s have "is_cancelled w1 p" by (rule is_cancelled_step)
  then show ?case using rest by (rule Cons.IH)
qed

lemma silent_OnReady: "is_cancelled w p \<Longrightarrow> OnReady p route code w = w"
  by (auto simp: is_cancelled_def OnReady_def split: option.splits)

lemma silent_OnNeedMoreMaps: "is_cancelled w p \<Longrightarrow> OnNeedMoreMaps p i a w = w"
  by (auto simp: is_cancelled_def OnNeedMoreMaps_def split: option.splits)

lemma silent_OnRemoveRoute: "is_cancelled w p \<Longrightarrow> OnRemoveRoute p code w = w"
  by (auto simp: is_cancelled_def OnRemoveRoute_def split: option.splits)

lemma silent_OnProgress: "is_cancelled w p \<Longrightarrow> OnProgress p x w = w"
  by (auto simp: is_cancelled_def OnProgress_def split: option.splits)

lemma silent_OnPointCheck:
  "is_cancelled w p \<Longrightarrow>
   OnPointCheck dbg p pt w =
     (if dbg \<and> m_onPointCheck (heap w ! p) = None then Inl CheckFailed else Inr w)"
  by (auto simp: is_cancelled_def OnPointCheck_def proxy_at_def split: option.splits if_splits)

lemma Cancel_idem: "is_cancelled w p \<Longrightarrow> Cancel p w = w"
proof -
  assume c: "is_cancelled w p"
  then have lt: "p < length (heap w)" and f: "d_cancelled (m_routerDelegate (heap w ! p))"
    by (auto simp: is_cancelled_def proxy_at_def RouterDelegate_IsCancelled_def split: if_splits)
  from f have "(m_routerDelegate (heap w ! p))\<lparr>d_cancelled := True\<rparr> = m_routerDelegate (heap w ! p)"
    by simp
  then have "(heap w ! p)\<lparr>m_routerDelegate := RouterDelegate_Cancel (m_routerDelegate (heap w ! p))\<rparr> = heap w ! p"
    by (simp add: RouterDelegate_Cancel_def)
  with lt show ?thesis
    by (simp add: Cancel_def proxy_at_def)
qed

lemma silent_proxy_call:
  "is_cancelled w p \<Longrightarrow>
   proxy_call dbg p c w =
     (if dbg \<and> m_onPointCheck (heap w ! p) = None \<and> (\<exists>pt. c = OpOnPointCheck pt)
      then Inl CheckFailed else Inr w)"
  by (cases c)
     (simp_all add: silent_OnReady silent_OnNeedMoreMaps silent_OnRemoveRoute silent_OnProgress
        silent_OnPointCheck Cancel_idem)

lemma silent_proxy_calls:
  "is_cancelled w p \<Longrightarrow>
   proxy_calls dbg p cs w =
     (if dbg \<and> m_onPointCheck (heap w ! p) = None \<and> (\<exists>pt. OpOnPointCheck pt \<in> set cs)
      then Inl CheckFailed else Inr w)"
proof (induction cs)
  case Nil
  then show ?case by simp
next
  case (Cons c cs)
  show ?case
  proof (cases "dbg \<and> m_onPointCheck (heap w ! p) = None \<and> (\<exists>pt. c = OpOnPointCheck pt)")
    case True
    with Cons.prems show ?thesis by (auto simp: silent_proxy_call)
  next
    case False
    with Cons.prems have "proxy_call dbg p c w = Inr w" by (simp add: silent_proxy_call)
    with Cons False show ?thesis by auto
  qed
qed

lemma ex_filed_value:
  "ex_filed =
     (\<lparr>m_threadExit = False, m_hasRequest = True, m_clearState = False,
        m_routingStatisticsCallback = Some 0, m_pointCheckCallback = None,
        m_router = Some ex_router, m_absentFetcher = Some 7,
        m_checkpoints = ex_checkpoints, m_startDirection = ex_point,
        m_adjustToPrevRoute = False, m_delegate = Some 0, m_routeCounter = 0\<rparr>,
      \<lparr>heap = [RouterDelegateProxy_new (Some 1) (Some 2) (Some 3) None (Some 4) 30],
        gui = [], trace = [], calls = [], logs = []\<rparr>)"
  by (simp add: ex_filed_def SetRouter_def ResetDelegate_def ex_dispatcher_def AsyncRouter_new_def
      CalculateRoute_def make_shared_proxy_def ex_world_def)

text \<open>
  Claim C1. Once Cancel has returned on a proxy, and whatever the dispatcher, the worker
  and the GUI thread do afterwards, OnReady, OnNeedMoreMaps, OnRemoveRoute and
  OnProgress on that proxy leave everything as it is: no user callback is called (the
  trace is the same) and none is scheduled (the GUI queue is the same). So does
  OnPointCheck, which has no body without SHOW_ROUTE_DEBUG_MARKS; with the macro and a
  null point-check callback its CHECK fails, before the flag is read, and the process
  stops, again with no callback called or scheduled. The same holds of any sequence of
  calls on the proxy.
\<close>

theorem cancelled_proxy_is_silent:
  assumes "p < length (heap w)"
      and "run fmt dbg acts (r, Cancel p w) = Inr (r', w')"
  shows "OnReady p route code w' = w' \<and>
         OnNeedMoreMaps p routeId absent w' = w' \<and>
         OnRemoveRoute p code' w' = w' \<and>
         OnProgress p progress w' = w' \<and>
         OnPointCheck dbg p pt w' =
           (if dbg \<and> m_onPointCheck (heap w' ! p) = None then Inl CheckFailed else Inr w') \<and>
         proxy_calls dbg p cs w' =
           (if dbg \<and> m_onPointCheck (heap w' ! p) = None \<and> (\<exists>pt. OpOnPointCheck pt \<in> set cs)
            then Inl CheckFailed else Inr w')"
proof -
  from assms(1) have "is_cancelled (Cancel p w) p" by (rule is_cancelled_Cancel)
  then have c: "is_cancelled w' p" using assms(2) by (rule is_cancelled_run)
  show ?thesis
    using c
    by (simp only: silent_OnReady silent_OnNeedMoreMaps silent_OnRemoveRoute silent_OnProgress
        silent_OnPointCheck [OF c] silent_proxy_calls [OF c] simp_thms)
qed

theorem cancelled_proxy_is_silent_witness:
  "0 < length (heap (snd ex_filed)) \<and>
   run ex_fmt True [ActGui] (fst ex_filed, Cancel 0 ((snd ex_filed)\<lparr>gui := [TaskOnReady 0 \<lparr>route_router = ''vehicle'', route_id = 1\<rparr> NoError]\<rparr>))
     = Inr (fst ex_filed, Cancel 0 (snd ex_filed)) \<and>
   OnReady 0 \<lparr>route_router = ''vehicle'', route_id = 1\<rparr> NoError (Cancel 0 (snd ex_filed))
     = Cancel 0 (snd ex_filed) \<and>
   OnNeedMoreMaps 0 1 [''US_Nevada''] (Cancel 0 (snd ex_filed)) = Cancel 0 (snd ex_filed) \<and>
   OnRemoveRoute 0 RouteNotFound (Cancel 0 (snd ex_filed)) = Cancel 0 (snd ex_filed) \<and>
   OnProgress 0 1 (Cancel 0 (snd ex_filed)) = Cancel 0 (snd ex_filed) \<and>
   OnPointCheck True 0 ex_point (Cancel 0 (snd ex_filed)) = Inl CheckFailed \<and>
   proxy_calls True 0 [OpOnProgress 1, OpCancel, OpOnReady \<lparr>route_router = ''vehicle'', route_id = 1\<rparr> NoError]
     (Cancel 0 (snd ex_filed)) = Inr (Cancel 0 (snd ex_filed))"
proof -
  let ?w = "(snd ex_filed)\<lparr>gui := [TaskOnReady 0 \<lparr>route_router = ''vehicle'', route_id = 1\<rparr> NoError]\<rparr>"
  have h1: "0 < length (heap ?w)"
    by (simp add: ex_filed_value)
  have h2: "run ex_fmt True [ActGui] (fst ex_filed, Cancel 0 ?w) = Inr (fst ex_filed, Cancel 0 (snd ex_filed))"
    by (simp add: ex_filed_value gui_step_def Cancel_def OnReady_def proxy_at_def
        RouterDelegateProxy_new_def RouterDelegate_SetTimeout_def RouterDelegate_Reset_def
        RouterDelegate_IsCancelled_def RouterDelegate_Cancel_def)
  have h3: "m_onPointCheck (heap (Cancel 0 (snd ex_filed)) ! 0) = None"
    by (simp add: ex_filed_value Cancel_def proxy_at_def RouterDelegateProxy_new_def)
  from cancelled_proxy_is_silent [OF h1 h2, of "\<lparr>route_router = ''vehicle'', route_id = 1\<rparr>" NoError
      1 "[''US_Nevada'']" RouteNotFound 1 ex_point
      "[OpOnProgress 1, OpCancel, OpOnReady \<lparr>route_router = ''vehicle'', route_id = 1\<rparr> NoError]"]
  show ?thesis
    using h1 h2 h3 by (simp del: proxy_calls.simps)
qed

subsection \<open>What one execution of the worker's body adds\<close>

lemma added_append: "added xs (xs @ ys) = ys"
  by (simp add: added_def)

lemma OnProgress_shape:
  "\<exists>ts. OnProgress d x w = w\<lparr>gui := gui w @ ts\<rparr> \<and> list_all is_listener ts"
proof (cases "OnProgress d x w = w")
  case True
  then have "OnProgress d x w = w\<lparr>gui := gui w @ []\<rparr> \<and> list_all is_listener []" by simp
  then show ?thesis by blast
next
  case False
  then obtain cb where "OnProgress d x w = w\<lparr>gui := gui w @ [TaskOnProgress cb x]\<rparr>"
    by (auto simp: OnProgress_def RunOnGuiThread_def split: option.splits if_splits)
  then have "OnProgress d x w = w\<lparr>gui := gui w @ [TaskOnProgress cb x]\<rparr> \<and>
      list_all is_listener [TaskOnProgress cb x]" by simp
  then show ?thesis by blast
qed

lemma OnPointCheck_shape:
  assumes "OnPointCheck dbg d pt w = Inr w'"
  shows "\<exists>ts. w' = w\<lparr>gui := gui w @ ts\<rparr> \<and> list_all is_listener ts"
proof (cases "w' = w")
  case True
  then have "w' = w\<lparr>gui := gui w @ []\<rparr> \<and> list_all is_listener []" by simp
  then show ?thesis by blast
next
  case False
  with assms obtain cb where "w' = w\<lparr>gui := gui w @ [TaskOnPointCheck cb pt]\<rparr>"
    by (auto simp: OnPointCheck_def RunOnGuiThread_def split: option.splits if_splits)
  then have "w' = w\<lparr>gui := gui w @ [TaskOnPointCheck cb pt]\<rparr> \<and>
      list_all is_listener [TaskOnPointCheck cb pt]" by simp
  then show ?thesis by blast
qed

lemma run_emit_shape:
  assumes "run_emit dbg d e w = Inr w'"
  shows "\<exists>ts. w' = w\<lparr>gui := gui w @ ts\<rparr> \<and> list_all is_listener ts"
proof (cases e)
  case (EmitProgress x)
  with assms have "w' = OnProgress d x w" by simp
  then show ?thesis using OnProgress_shape [of d x w] by simp
next
  case (EmitPointCheck pt)
  with assms have "OnPointCheck dbg d pt w = Inr w'" by simp
  then show ?thesis by (rule OnPointCheck_shape)
qed

lemma run_emits_shape:
  "run_emits dbg d es w = Inr w' \<Longrightarrow>
   \<exists>ts. w' = w\<lparr>gui := gui w @ ts\<rparr> \<and> list_all is_listener ts"
proof (induction es arbitrary: w)
  case Nil
  then have "w' = w\<lparr>gui := gui w @ []\<rparr> \<and> list_all is_listener []" by simp
  then show ?case by blast
next
  case (Cons e es)
  then obtain w1 where e: "run_emit dbg d e w = Inr w1" and rest: "run_emits dbg d es w1 = Inr w'"
    by (auto split: sum.splits)
  from run_emit_shape [OF e] obtain ts1 where
    w1: "w1 = w\<lparr>gui := gui w @ ts1\<rparr>" and l1: "list_all is_listener ts1" by blast
  from Cons.IH [OF rest] obtain ts2 where
    w': "w' = w1\<lparr>gui := gui w1 @ ts2\<rparr>" and l2: "list_all is_listener ts2" by blast
  from w1 w' have "w' = w\<lparr>gui := gui w @ (ts1 @ ts2)\<rparr>" by simp
  moreover from l1 l2 have "list_all is_listener (ts1 @ ts2)" by simp
  ultimately show ?case by blast
qed

text \<open>What the absent-fetch step drains, and the code after the upgrade step.\<close>

lemma deliver_shape:
  fixes env l route code w
  defines "drained \<equiv> (if l_absentFetcher l \<noteq> None \<and> code \<noteq> Cancelled then er_absent env else [])"
  defines "final \<equiv> (if drained \<noteq> [] \<and> code = NoError then NeedMoreMaps else code)"
  shows "deliver env l route code w =
     w\<lparr>gui := gui w @
          [TaskSendStatistics (l_checkpoints l) (l_startDirection l) code (er_routeLengthM env)
             (er_elapsed1 env) (l_routingStatisticsCallback l) (l_routerName l)] @
          (if code = NoError then [TaskOnReady (l_delegate l) route code] else []) @
          (if final = NoError then []
           else if final = NeedMoreMaps then [TaskOnNeedMoreMaps (l_delegate l) (l_routeId l) drained]
           else [TaskOnRemoveRoute (l_delegate l) final]),
        calls := calls w @
          (case l_absentFetcher l of
             Some fetcher \<Rightarrow> if code \<noteq> Cancelled then [FetcherGetAbsentCountries fetcher] else []
           | None \<Rightarrow> []),
        logs := logs w @ [LogCode final (er_elapsed2 env)]\<rparr>"
proof (cases "l_absentFetcher l")
  case None
  then show ?thesis
    unfolding drained_def final_def
    by (simp add: deliver_def RunOnGuiThread_def RunOnReadyOnGuiThread_def LOG_def call_out_def)
next
  case (Some fetcher)
  show ?thesis
  proof (cases "code = Cancelled")
    case True
    with Some show ?thesis
      unfolding drained_def final_def
      by (simp add: deliver_def RunOnGuiThread_def RunOnReadyOnGuiThread_def LOG_def call_out_def)
  next
    case False
    with Some show ?thesis
      unfolding drained_def final_def
      by (simp add: deliver_def RunOnGuiThread_def RunOnReadyOnGuiThread_def LOG_def call_out_def)
  qed
qed

lemma take_snapshot_dropped:
  "\<not> m_hasRequest r \<or> m_router r = None \<or> m_delegate r = None \<Longrightarrow>
   take_snapshot r = (r\<lparr>m_hasRequest := False\<rparr>, None)"
  by (auto simp: take_snapshot_def Let_def split: option.splits)

lemma take_snapshot_taken:
  "m_hasRequest r \<Longrightarrow> m_router r = Some router \<Longrightarrow> m_delegate r = Some d \<Longrightarrow>
   take_snapshot r =
     (r\<lparr>m_hasRequest := False, m_routeCounter := m_routeCounter r + 1\<rparr>,
      Some \<lparr>l_delegate = d,
            l_checkpoints = m_checkpoints r,
            l_startDirection = m_startDirection r,
            l_adjustToPrevRoute = m_adjustToPrevRoute r,
            l_absentFetcher = m_absentFetcher r,
            l_router = router,
            l_routeId = m_routeCounter r + 1,
            l_routingStatisticsCallback = m_routingStatisticsCallback r,
            l_routerName = GetName router\<rparr>)"
  by (simp add: take_snapshot_def Let_def)

text \<open>The calls and log lines up to the engine's return, for a snapshot.\<close>

lemma execute_returned:
  fixes env l w code
  defines "route \<equiv> \<lparr>route_router = GetName (l_router l), route_id = l_routeId l\<rparr>"
  assumes out: "er_outcome env = Returned code"
      and ex: "execute dbg env l w = Inr w'"
  shows "\<exists>ts. list_all is_listener ts \<and>
           w' = deliver env l route code
                  (w\<lparr>gui := gui w @ ts,
                     calls := calls w @
                       (case l_absentFetcher l of
                          Some fetcher \<Rightarrow> [FetcherGenerateRequest fetcher (l_checkpoints l)]
                        | None \<Rightarrow> []) @
                       [RouterCalculateRoute (l_router l) (l_checkpoints l) (l_startDirection l)
                          (l_adjustToPrevRoute l) (l_delegate l) route],
                     logs := logs w @
                       [LogCalculating (l_checkpoints l) (l_startDirection l) (GetName (l_router l)),
                        LogCode code (er_elapsed1 env)]\<rparr>)"
proof -
  define w2 where "w2 =
    w\<lparr>calls := calls w @
         (case l_absentFetcher l of
            Some fetcher \<Rightarrow> [FetcherGenerateRequest fetcher (l_checkpoints l)]
          | None \<Rightarrow> []) @
         [RouterCalculateRoute (l_router l) (l_checkpoints l) (l_startDirection l)
            (l_adjustToPrevRoute l) (l_delegate l) route],
       logs := logs w @
         [LogCalculating (l_checkpoints l) (l_startDirection l) (GetName (l_router l))]\<rparr>"
  have w2: "call_out (RouterCalculateRoute (l_router l) (l_checkpoints l) (l_startDirection l)
                 (l_adjustToPrevRoute l) (l_delegate l) route)
              (case l_absentFetcher l of
                 Some fetcher \<Rightarrow>
                   call_out (FetcherGenerateRequest fetcher (l_checkpoints l))
                     (LOG (LogCalculating (l_checkpoints l) (l_startDirection l)
                             (GetName (l_router l))) w)
               | None \<Rightarrow> LOG (LogCalculating (l_checkpoints l) (l_startDirection l)
                             (GetName (l_router l))) w) = w2"
    by (simp add: w2_def call_out_def LOG_def split: option.splits)
  from ex obtain w3 where em: "run_emits dbg (l_delegate l) (er_emits env) w2 = Inr w3"
    and w': "w' = deliver env l route code (LOG (LogCode code (er_elapsed1 env)) w3)"
    using out w2 by (auto simp: execute_def Let_def route_def split: sum.splits)
  from run_emits_shape [OF em] obtain ts where
    w3: "w3 = w2\<lparr>gui := gui w2 @ ts\<rparr>" and ls: "list_all is_listener ts" by blast
  have "LOG (LogCode code (er_elapsed1 env)) w3 =
        w\<lparr>gui := gui w @ ts,
           calls := calls w @
             (case l_absentFetcher l of
                Some fetcher \<Rightarrow> [FetcherGenerateRequest fetcher (l_checkpoints l)]
              | None \<Rightarrow> []) @
             [RouterCalculateRoute (l_router l) (l_checkpoints l) (l_startDirection l)
                (l_adjustToPrevRoute l) (l_delegate l) route],
           logs := logs w @
             [LogCalculating (l_checkpoints l) (l_startDirection l) (GetName (l_router l)),
              LogCode code (er_elapsed1 env)]\<rparr>"
    by (simp add: w3 w2_def LOG_def)
  with w' ls show ?thesis by auto
qed

lemma execute_threw:
  fixes env l w msg
  defines "route \<equiv> \<lparr>route_router = GetName (l_router l), route_id = l_routeId l\<rparr>"
  assumes out: "er_outcome env = ThrewRoot msg"
      and ex: "execute dbg env l w = Inr w'"
  shows "\<exists>ts. list_all is_listener ts \<and>
           w' = w\<lparr>gui := gui w @ ts @
                     [TaskSendStatisticsException (l_checkpoints l) (l_startDirection l) msg
                        (l_routingStatisticsCallback l) (l_routerName l),
                      TaskOnReady (l_delegate l) route InternalError],
                   calls := calls w @
                     (case l_absentFetcher l of
                        Some fetcher \<Rightarrow> [FetcherGenerateRequest fetcher (l_checkpoints l)]
                      | None \<Rightarrow> []) @
                     [RouterCalculateRoute (l_router l) (l_checkpoints l) (l_startDirection l)
                        (l_adjustToPrevRoute l) (l_delegate l) route],
                   logs := logs w @
                     [LogCalculating (l_checkpoints l) (l_startDirection l) (GetName (l_router l)),
                      LogException msg]\<rparr>"
proof -
  define w2 where "w2 =
    w\<lparr>calls := calls w @
         (case l_absentFetcher l of
            Some fetcher \<Rightarrow> [FetcherGenerateRequest fetcher (l_checkpoints l)]
          | None \<Rightarrow> []) @
         [RouterCalculateRoute (l_router l) (l_checkpoints l) (l_startDirection l)
            (l_adjustToPrevRoute l) (l_delegate l) route],
       logs := logs w @
         [LogCalculating (l_checkpoints l) (l_startDirection l) (GetName (l_router l))]\<rparr>"
  have w2: "call_out (RouterCalculateRoute (l_router l) (l_checkpoints l) (l_startDirection l)
                 (l_adjustToPrevRoute l) (l_delegate l) route)
              (case l_absentFetcher l of
                 Some fetcher \<Rightarrow>
                   call_out (FetcherGenerateRequest fetcher (l_checkpoints l))
                     (LOG (LogCalculating (l_checkpoints l) (l_startDirection l)
                             (GetName (l_router l))) w)
               | None \<Rightarrow> LOG (LogCalculating (l_checkpoints l) (l_startDirection l)
                             (GetName (l_router l))) w) = w2"
    by (simp add: w2_def call_out_def LOG_def split: option.splits)
  from ex obtain w3 where em: "run_emits dbg (l_delegate l) (er_emits env) w2 = Inr w3"
    and w': "w' = RunOnReadyOnGuiThread (l_delegate l) route InternalError
                    (RunOnGuiThread
                       (TaskSendStatisticsException (l_checkpoints l) (l_startDirection l) msg
                          (l_routingStatisticsCallback l) (l_routerName l))
                       (LOG (LogException msg) w3))"
    using out w2 by (auto simp: execute_def Let_def route_def split: sum.splits)
  from run_emits_shape [OF em] obtain ts where
    w3: "w3 = w2\<lparr>gui := gui w2 @ ts\<rparr>" and ls: "list_all is_listener ts" by blast
  have "w' = w\<lparr>gui := gui w @ ts @
                     [TaskSendStatisticsException (l_checkpoints l) (l_startDirection l) msg
                        (l_routingStatisticsCallback l) (l_routerName l),
                      TaskOnReady (l_delegate l) route InternalError],
                   calls := calls w @
                     (case l_absentFetcher l of
                        Some fetcher \<Rightarrow> [FetcherGenerateRequest fetcher (l_checkpoints l)]
                      | None \<Rightarrow> []) @
                     [RouterCalculateRoute (l_router l) (l_checkpoints l) (l_startDirection l)
                        (l_adjustToPrevRoute l) (l_delegate l) route],
                   logs := logs w @
                     [LogCalculating (l_checkpoints l) (l_startDirection l) (GetName (l_router l)),
                      LogException msg]\<rparr>"
    by (simp add: w' w3 w2_def LOG_def RunOnGuiThread_def RunOnReadyOnGuiThread_def)
  with ls show ?thesis by blast
qed

lemma execute_not_other: "execute dbg env l w = Inr w' \<Longrightarrow> er_outcome env \<noteq> ThrewOther"
  by (auto simp: execute_def Let_def split: sum.splits)

lemma filter_listener_OnReady: "list_all is_listener ts \<Longrightarrow> filter is_OnReady ts = []"
  by (induction ts) (auto elim: is_listener.elims)

lemma filter_listener_secondary: "list_all is_listener ts \<Longrightarrow> filter is_secondary ts = []"
  by (induction ts) (auto elim: is_listener.elims)

lemma worker_executed:
  assumes "m_hasRequest r" "m_router r = Some router" "m_delegate r = Some d"
      and "CalculateRoute_worker dbg env r w = Inr (r', w')"
  shows "r' = r\<lparr>m_hasRequest := False, m_routeCounter := m_routeCounter r + 1\<rparr> \<and>
         execute dbg env
           \<lparr>l_delegate = d,
            l_checkpoints = m_checkpoints r,
            l_startDirection = m_startDirection r,
            l_adjustToPrevRoute = m_adjustToPrevRoute r,
            l_absentFetcher = m_absentFetcher r,
            l_router = router,
            l_routeId = m_routeCounter r + 1,
            l_routingStatisticsCallback = m_routingStatisticsCallback r,
            l_routerName = GetName router\<rparr> w = Inr w'"
  using assms(4)
  by (auto simp: CalculateRoute_worker_def take_snapshot_taken [OF assms(1-3)] split: sum.splits)

lemma worker_returned_shape:
  fixes r w env code router d
  defines "drained \<equiv> (if m_absentFetcher r \<noteq> None \<and> code \<noteq> Cancelled then er_absent env else [])"
  defines "final \<equiv> (if drained \<noteq> [] \<and> code = NoError then NeedMoreMaps else code)"
  defines "route \<equiv> \<lparr>route_router = GetName router, route_id = m_routeCounter r + 1\<rparr>"
  assumes g: "m_hasRequest r" "m_router r = Some router" "m_delegate r = Some d"
      and out: "er_outcome env = Returned code"
      and run: "CalculateRoute_worker dbg env r w = Inr (r', w')"
  shows "\<exists>ts. list_all is_listener ts \<and>
           w' = w\<lparr>gui := gui w @ ts @
                     [TaskSendStatistics (m_checkpoints r) (m_startDirection r) code
                        (er_routeLengthM env) (er_elapsed1 env) (m_routingStatisticsCallback r)
                        (GetName router)] @
                     (if code = NoError then [TaskOnReady d route code] else []) @
                     (if final = NoError then []
                      else if final = NeedMoreMaps
                           then [TaskOnNeedMoreMaps d (m_routeCounter r + 1) drained]
                           else [TaskOnRemoveRoute d final]),
                   calls := calls w @
                     (case m_absentFetcher r of
                        Some fetcher \<Rightarrow> [FetcherGenerateRequest fetcher (m_checkpoints r)]
                      | None \<Rightarrow> []) @
                     [RouterCalculateRoute router (m_checkpoints r) (m_startDirection r)
                        (m_adjustToPrevRoute r) d route] @
                     (case m_absentFetcher r of
                        Some fetcher \<Rightarrow>
                          if code \<noteq> Cancelled then [FetcherGetAbsentCountries fetcher] else []
                      | None \<Rightarrow> []),
                   logs := logs w @
                     [LogCalculating (m_checkpoints r) (m_startDirection r) (GetName router),
                      LogCode code (er_elapsed1 env),
                      LogCode final (er_elapsed2 env)]\<rparr>"
proof -
  let ?l = "\<lparr>l_delegate = d,
            l_checkpoints = m_checkpoints r,
            l_startDirection = m_startDirection r,
            l_adjustToPrevRoute = m_adjustToPrevRoute r,
            l_absentFetcher = m_absentFetcher r,
            l_router = router,
            l_routeId = m_routeCounter r + 1,
            l_routingStatisticsCallback = m_routingStatisticsCallback r,
            l_routerName = GetName router\<rparr>"
  from worker_executed [OF g run] have ex: "execute dbg env ?l w = Inr w'" by simp
  from execute_returned [OF out ex] obtain ts where
    ls: "list_all is_listener ts" and w': "w' = deliver env ?l
                 \<lparr>route_router = GetName (l_router ?l), route_id = l_routeId ?l\<rparr> code
                  (w\<lparr>gui := gui w @ ts,
                     calls := calls w @
                       (case l_absentFetcher ?l of
                          Some fetcher \<Rightarrow> [FetcherGenerateRequest fetcher (l_checkpoints ?l)]
                        | None \<Rightarrow> []) @
                       [RouterCalculateRoute (l_router ?l) (l_checkpoints ?l) (l_startDirection ?l)
                          (l_adjustToPrevRoute ?l) (l_delegate ?l) \<lparr>route_router = GetName (l_router ?l), route_id = l_routeId ?l\<rparr>],
                     logs := logs w @
                       [LogCalculating (l_checkpoints ?l) (l_startDirection ?l) (GetName (l_router ?l)),
                        LogCode code (er_elapsed1 env)]\<rparr>)" by blast
  have "w' = w\<lparr>gui := gui w @ ts @
                     [TaskSendStatistics (m_checkpoints r) (m_startDirection r) code
                        (er_routeLengthM env) (er_elapsed1 env) (m_routingStatisticsCallback r)
                        (GetName router)] @
                     (if code = NoError then [TaskOnReady d route code] else []) @
                     (if final = NoError then []
                      else if final = NeedMoreMaps
                           then [TaskOnNeedMoreMaps d (m_routeCounter r + 1) drained]
                           else [TaskOnRemoveRoute d final]),
                   calls := calls w @
                     (case m_absentFetcher r of
                        Some fetcher \<Rightarrow> [FetcherGenerateRequest fetcher (m_checkpoints r)]
                      | None \<Rightarrow> []) @
                     [RouterCalculateRoute router (m_checkpoints r) (m_startDirection r)
                        (m_adjustToPrevRoute r) d route] @
                     (case m_absentFetcher r of
                        Some fetcher \<Rightarrow>
                          if code \<noteq> Cancelled then [FetcherGetAbsentCountries fetcher] else []
                      | None \<Rightarrow> []),
                   logs := logs w @
                     [LogCalculating (m_checkpoints r) (m_startDirection r) (GetName router),
                      LogCode code (er_elapsed1 env),
                      LogCode final (er_elapsed2 env)]\<rparr>"
    unfolding w' deliver_shape drained_def final_def route_def
    by (simp split: option.splits)
  with ls show ?thesis by blast
qed

lemma run_emits_returns:
  "\<not> dbg \<Longrightarrow> \<exists>w'. run_emits dbg d es w = Inr w'"
proof (induction es arbitrary: w)
  case Nil
  then show ?case by simp
next
  case (Cons e es)
  from Cons.prems obtain w1 where "run_emit dbg d e w = Inr w1"
    by (cases e) (simp_all add: OnPointCheck_def)
  with Cons.IH [OF Cons.prems, of w1] show ?case by simp
qed

lemma run_emits_no_error: "\<not> dbg \<Longrightarrow> run_emits dbg d es w \<noteq> Inl e"
  using run_emits_returns [of dbg d es w] by auto

lemma execute_returns:
  "\<not> dbg \<Longrightarrow> er_outcome env \<noteq> ThrewOther \<Longrightarrow> \<exists>w'. execute dbg env l w = Inr w'"
  unfolding execute_def Let_def
  by (cases "er_outcome env") (auto split: sum.splits simp: run_emits_no_error)

lemma CalculateRoute_worker_returns:
  "\<not> dbg \<Longrightarrow> er_outcome env \<noteq> ThrewOther \<Longrightarrow> \<exists>s. CalculateRoute_worker dbg env r w = Inr s"
proof -
  assume d: "\<not> dbg" and o: "er_outcome env \<noteq> ThrewOther"
  obtain r1 sn where t: "take_snapshot r = (r1, sn)" by (cases "take_snapshot r")
  show ?thesis
  proof (cases sn)
    case None
    with t show ?thesis by (simp add: CalculateRoute_worker_def)
  next
    case (Some l)
    from execute_returns [OF d o, of l w] obtain w' where "execute dbg env l w = Inr w'" by blast
    with t Some show ?thesis by (simp add: CalculateRoute_worker_def)
  qed
qed

text \<open>The definitions to unfold when a run of the worker is computed on given values.\<close>

lemmas worker_eval =
  CalculateRoute_worker_def take_snapshot_def execute_def deliver_def OnProgress_def proxy_at_def
  RouterDelegateProxy_new_def RouterDelegate_SetTimeout_def RouterDelegate_Reset_def
  RouterDelegate_IsCancelled_def RunOnGuiThread_def RunOnReadyOnGuiThread_def LOG_def call_out_def
  ex_env_def

text \<open>
  Claim C2. In an execution of the worker's CalculateRoute that passes the guards, the
  OnReady tasks scheduled are: exactly one, with NoError, when the engine returns
  NoError; exactly one, with InternalError and the route object made for this request
  (the engine's name, the new route id), when the engine throws an exception of the
  RootException family; none for every other result code.
\<close>

theorem OnReady_scheduled_once:
  assumes "m_hasRequest r" "m_router r = Some router" "m_delegate r = Some d"
      and "CalculateRoute_worker dbg env r w = Inr (r', w')"
  shows "filter is_OnReady (added (gui w) (gui w')) =
           (case er_outcome env of
              Returned code \<Rightarrow>
                if code = NoError
                then [TaskOnReady d \<lparr>route_router = GetName router, route_id = m_routeCounter r + 1\<rparr>
                        NoError]
                else []
            | ThrewRoot msg \<Rightarrow>
                [TaskOnReady d \<lparr>route_router = GetName router, route_id = m_routeCounter r + 1\<rparr>
                   InternalError]
            | ThrewOther \<Rightarrow> []) \<and>
         length (filter is_OnReady (added (gui w) (gui w'))) =
           (if er_outcome env = Returned NoError \<or> (\<exists>msg. er_outcome env = ThrewRoot msg)
            then 1 else 0)"
proof -
  let ?l = "\<lparr>l_delegate = d,
            l_checkpoints = m_checkpoints r,
            l_startDirection = m_startDirection r,
            l_adjustToPrevRoute = m_adjustToPrevRoute r,
            l_absentFetcher = m_absentFetcher r,
            l_router = router,
            l_routeId = m_routeCounter r + 1,
            l_routingStatisticsCallback = m_routingStatisticsCallback r,
            l_routerName = GetName router\<rparr>"
  from worker_executed [OF assms] have ex: "execute dbg env ?l w = Inr w'" by simp
  show ?thesis
  proof (cases "er_outcome env")
    case (Returned code)
    from execute_returned [OF Returned ex] obtain ts where
      ls: "list_all is_listener ts" and w': "w' = deliver env ?l
                 \<lparr>route_router = GetName (l_router ?l), route_id = l_routeId ?l\<rparr> code
                  (w\<lparr>gui := gui w @ ts,
                     calls := calls w @
                       (case l_absentFetcher ?l of
                          Some fetcher \<Rightarrow> [FetcherGenerateRequest fetcher (l_checkpoints ?l)]
                        | None \<Rightarrow> []) @
                       [RouterCalculateRoute (l_router ?l) (l_checkpoints ?l) (l_startDirection ?l)
                          (l_adjustToPrevRoute ?l) (l_delegate ?l) \<lparr>route_router = GetName (l_router ?l), route_id = l_routeId ?l\<rparr>],
                     logs := logs w @
                       [LogCalculating (l_checkpoints ?l) (l_startDirection ?l) (GetName (l_router ?l)),
                        LogCode code (er_elapsed1 env)]\<rparr>)" by blast
    show ?thesis
      using Returned ls
      by (simp add: w' deliver_shape added_append filter_listener_OnReady)
  next
    case (ThrewRoot msg)
    from execute_threw [OF ThrewRoot ex] obtain ts where
      ls: "list_all is_listener ts" and g: "gui w' = gui w @ ts @
                     [TaskSendStatisticsException (l_checkpoints ?l) (l_startDirection ?l) msg
                        (l_routingStatisticsCallback ?l) (l_routerName ?l),
                      TaskOnReady (l_delegate ?l) \<lparr>route_router = GetName (l_router ?l), route_id = l_routeId ?l\<rparr> InternalError]"
      by auto
    show ?thesis
      using ThrewRoot ls
      by (simp add: g added_append filter_listener_OnReady)
  next
    case ThrewOther
    with execute_not_other [OF ex] show ?thesis by simp
  qed
qed

theorem OnReady_scheduled_once_witness:
  "m_hasRequest (fst ex_filed) \<and> m_router (fst ex_filed) = Some ex_router \<and>
   m_delegate (fst ex_filed) = Some 0 \<and>
   (\<exists>r' w'. CalculateRoute_worker False (ex_env (ThrewRoot ''bad mwm'') []) (fst ex_filed) (snd ex_filed)
              = Inr (r', w') \<and>
            filter is_OnReady (added (gui (snd ex_filed)) (gui w')) =
              [TaskOnReady 0 \<lparr>route_router = ''vehicle'', route_id = 1\<rparr> InternalError] \<and>
            length (filter is_OnReady (added (gui (snd ex_filed)) (gui w'))) = 1)"
proof -
  have g1: "m_hasRequest (fst ex_filed)" and g2: "m_router (fst ex_filed) = Some ex_router"
    and g3: "m_delegate (fst ex_filed) = Some 0"
    by (simp_all add: ex_filed_value)
  have "\<exists>s. CalculateRoute_worker False (ex_env (ThrewRoot ''bad mwm'') []) (fst ex_filed) (snd ex_filed) = Inr s"
    by (rule CalculateRoute_worker_returns) (simp_all add: ex_env_def)
  then obtain r' w' where run:
    "CalculateRoute_worker False (ex_env (ThrewRoot ''bad mwm'') []) (fst ex_filed) (snd ex_filed) = Inr (r', w')"
    by auto
  from OnReady_scheduled_once [OF g1 g2 g3 run] g1 g2 g3 run show ?thesis
    by (simp add: ex_env_def ex_router_def ex_filed_value)
qed

text \<open>
  Claim C3. In an execution that passes the guards and in which the engine returns a
  code: let the drained list be what GetAbsentCountries gave (empty when it was not
  called) and the final code the code after the upgrade step, which is the code the
  second LogCode logs. When the final code is NoError no secondary task is scheduled;
  when it is NeedMoreMaps exactly one is, OnNeedMoreMaps with the drained list and the
  id the route object was made with; otherwise exactly one, OnRemoveRoute with the
  final code.
\<close>

theorem secondary_delivery:
  fixes r w env code router d
  defines "drained \<equiv> (if m_absentFetcher r \<noteq> None \<and> code \<noteq> Cancelled then er_absent env else [])"
  defines "final \<equiv> (if drained \<noteq> [] \<and> code = NoError then NeedMoreMaps else code)"
  assumes "m_hasRequest r" "m_router r = Some router" "m_delegate r = Some d"
      and "er_outcome env = Returned code"
      and "CalculateRoute_worker dbg env r w = Inr (r', w')"
  shows "filter is_secondary (added (gui w) (gui w')) =
           (if final = NoError then []
            else if final = NeedMoreMaps then [TaskOnNeedMoreMaps d (m_routeCounter r + 1) drained]
            else [TaskOnRemoveRoute d final]) \<and>
         produced_ids (added (calls w) (calls w')) = [m_routeCounter r + 1] \<and>
         last (logs w') = LogCode final (er_elapsed2 env)"
proof -
  from worker_returned_shape [OF assms(3-7)] obtain ts where
    ls: "list_all is_listener ts" and
    w': "w' = w\<lparr>gui := gui w @ ts @
                     [TaskSendStatistics (m_checkpoints r) (m_startDirection r) code
                        (er_routeLengthM env) (er_elapsed1 env) (m_routingStatisticsCallback r)
                        (GetName router)] @
                     (if code = NoError then [TaskOnReady d \<lparr>route_router = GetName router, route_id = m_routeCounter r + 1\<rparr> code] else []) @
                     (if final = NoError then []
                      else if final = NeedMoreMaps
                           then [TaskOnNeedMoreMaps d (m_routeCounter r + 1) drained]
                           else [TaskOnRemoveRoute d final]),
                   calls := calls w @
                     (case m_absentFetcher r of
                        Some fetcher \<Rightarrow> [FetcherGenerateRequest fetcher (m_checkpoints r)]
                      | None \<Rightarrow> []) @
                     [RouterCalculateRoute router (m_checkpoints r) (m_startDirection r)
                        (m_adjustToPrevRoute r) d \<lparr>route_router = GetName router, route_id = m_routeCounter r + 1\<rparr>] @
                     (case m_absentFetcher r of
                        Some fetcher \<Rightarrow>
                          if code \<noteq> Cancelled then [FetcherGetAbsentCountries fetcher] else []
                      | None \<Rightarrow> []),
                   logs := logs w @
                     [LogCalculating (m_checkpoints r) (m_startDirection r) (GetName router),
                      LogCode code (er_elapsed1 env),
                      LogCode final (er_elapsed2 env)]\<rparr>"
    unfolding drained_def final_def by blast
  have 1: "filter is_secondary (added (gui w) (gui w')) =
           (if final = NoError then []
            else if final = NeedMoreMaps then [TaskOnNeedMoreMaps d (m_routeCounter r + 1) drained]
            else [TaskOnRemoveRoute d final])"
    using ls by (simp add: w' added_append filter_listener_secondary)
  have 2: "produced_ids (added (calls w) (calls w')) = [m_routeCounter r + 1]"
    by (simp add: w' added_append split: option.splits)
  have 3: "last (logs w') = LogCode final (er_elapsed2 env)"
    by (simp add: w')
  from 1 2 3 show ?thesis by blast
qed

theorem secondary_delivery_witness:
  "m_hasRequest (fst ex_filed) \<and> m_router (fst ex_filed) = Some ex_router \<and>
   m_delegate (fst ex_filed) = Some 0 \<and>
   er_outcome (ex_env (Returned NoError) [''US_California'', ''US_Nevada'']) = Returned NoError \<and>
   (\<exists>r' w'. CalculateRoute_worker False (ex_env (Returned NoError) [''US_California'', ''US_Nevada''])
                (fst ex_filed) (snd ex_filed) = Inr (r', w') \<and>
            filter is_secondary (added (gui (snd ex_filed)) (gui w')) =
              [TaskOnNeedMoreMaps 0 1 [''US_California'', ''US_Nevada'']] \<and>
            produced_ids (added (calls (snd ex_filed)) (calls w')) = [1] \<and>
            last (logs w') = LogCode NeedMoreMaps 3)"
proof -
  let ?env = "ex_env (Returned NoError) [''US_California'', ''US_Nevada'']"
  have g1: "m_hasRequest (fst ex_filed)" and g2: "m_router (fst ex_filed) = Some ex_router"
    and g3: "m_delegate (fst ex_filed) = Some 0"
    by (simp_all add: ex_filed_value)
  have o: "er_outcome ?env = Returned NoError" by (simp add: ex_env_def)
  have "\<exists>s. CalculateRoute_worker False ?env (fst ex_filed) (snd ex_filed) = Inr s"
    by (rule CalculateRoute_worker_returns) (simp_all add: ex_env_def)
  then obtain r' w' where run:
    "CalculateRoute_worker False ?env (fst ex_filed) (snd ex_filed) = Inr (r', w')"
    by auto
  from secondary_delivery [OF g1 g2 g3 o run] g1 g2 g3 o run show ?thesis
    by (simp add: ex_env_def ex_filed_value)
qed

text \<open>
  Claim C4. In an execution that passes the guards and in which the engine returns a
  code: GetAbsentCountries is called if and only if a fetcher is installed and the code
  is not Cancelled (and then once); and the code logged after the upgrade step differs
  from the engine's code if and only if the drained list is non-empty and the engine's
  code was NoError, in which case it is NeedMoreMaps.
\<close>

theorem absent_fetch_and_upgrade:
  fixes r w env code router d
  defines "drained \<equiv> (if m_absentFetcher r \<noteq> None \<and> code \<noteq> Cancelled then er_absent env else [])"
  assumes "m_hasRequest r" "m_router r = Some router" "m_delegate r = Some d"
      and "er_outcome env = Returned code"
      and "CalculateRoute_worker dbg env r w = Inr (r', w')"
  shows "(\<exists>fetcher. FetcherGetAbsentCountries fetcher \<in> set (added (calls w) (calls w'))) =
           (m_absentFetcher r \<noteq> None \<and> code \<noteq> Cancelled) \<and>
         length (filter is_GetAbsentCountries (added (calls w) (calls w'))) \<le> 1 \<and>
         (\<exists>final. logs w' = logs w @
                    [LogCalculating (m_checkpoints r) (m_startDirection r) (GetName router),
                     LogCode code (er_elapsed1 env),
                     LogCode final (er_elapsed2 env)] \<and>
                  (final \<noteq> code) = (drained \<noteq> [] \<and> code = NoError) \<and>
                  (final = code \<or> final = NeedMoreMaps))"
proof -
  define final where "final = (if drained \<noteq> [] \<and> code = NoError then NeedMoreMaps else code)"
  from worker_returned_shape [OF assms(2-6)] obtain ts where
    ls: "list_all is_listener ts" and
    w': "w' = w\<lparr>gui := gui w @ ts @
                     [TaskSendStatistics (m_checkpoints r) (m_startDirection r) code
                        (er_routeLengthM env) (er_elapsed1 env) (m_routingStatisticsCallback r)
                        (GetName router)] @
                     (if code = NoError then [TaskOnReady d \<lparr>route_router = GetName router, route_id = m_routeCounter r + 1\<rparr> code] else []) @
                     (if final = NoError then []
                      else if final = NeedMoreMaps
                           then [TaskOnNeedMoreMaps d (m_routeCounter r + 1) drained]
                           else [TaskOnRemoveRoute d final]),
                   calls := calls w @
                     (case m_absentFetcher r of
                        Some fetcher \<Rightarrow> [FetcherGenerateRequest fetcher (m_checkpoints r)]
                      | None \<Rightarrow> []) @
                     [RouterCalculateRoute router (m_checkpoints r) (m_startDirection r)
                        (m_adjustToPrevRoute r) d \<lparr>route_router = GetName router, route_id = m_routeCounter r + 1\<rparr>] @
                     (case m_absentFetcher r of
                        Some fetcher \<Rightarrow>
                          if code \<noteq> Cancelled then [FetcherGetAbsentCountries fetcher] else []
                      | None \<Rightarrow> []),
                   logs := logs w @
                     [LogCalculating (m_checkpoints r) (m_startDirection r) (GetName router),
                      LogCode code (er_elapsed1 env),
                      LogCode final (er_elapsed2 env)]\<rparr>"
    unfolding drained_def final_def by blast
  have 1: "(\<exists>fetcher. FetcherGetAbsentCountries fetcher \<in> set (added (calls w) (calls w'))) =
           (m_absentFetcher r \<noteq> None \<and> code \<noteq> Cancelled)"
    by (cases "m_absentFetcher r") (auto simp: w' added_append)
  have 2: "length (filter is_GetAbsentCountries (added (calls w) (calls w'))) \<le> 1"
    by (simp add: w' added_append split: option.splits)
  have 3: "logs w' = logs w @
                    [LogCalculating (m_checkpoints r) (m_startDirection r) (GetName router),
                     LogCode code (er_elapsed1 env),
                     LogCode final (er_elapsed2 env)]"
    by (simp add: w')
  have 4: "(final \<noteq> code) = (drained \<noteq> [] \<and> code = NoError)"
    by (auto simp: final_def)
  have 5: "final = code \<or> final = NeedMoreMaps"
    by (simp add: final_def)
  from 1 2 3 4 5 show ?thesis by blast
qed

theorem absent_fetch_and_upgrade_witness:
  "m_hasRequest (fst ex_filed) \<and> m_router (fst ex_filed) = Some ex_router \<and>
   m_delegate (fst ex_filed) = Some 0 \<and>
   er_outcome (ex_env (Returned NoError) [''US_Nevada'']) = Returned NoError \<and>
   (\<exists>r' w'. CalculateRoute_worker False (ex_env (Returned NoError) [''US_Nevada''])
                (fst ex_filed) (snd ex_filed) = Inr (r', w') \<and>
            (\<exists>fetcher. FetcherGetAbsentCountries fetcher \<in> set (added (calls (snd ex_filed)) (calls w'))) \<and>
            length (filter is_GetAbsentCountries (added (calls (snd ex_filed)) (calls w'))) \<le> 1 \<and>
            (\<exists>final. logs w' = logs (snd ex_filed) @
                    [LogCalculating ex_checkpoints ex_point ''vehicle'',
                     LogCode NoError 2,
                     LogCode final 3] \<and>
                  final \<noteq> NoError \<and> final = NeedMoreMaps))"
proof -
  let ?env = "ex_env (Returned NoError) [''US_Nevada'']"
  have g1: "m_hasRequest (fst ex_filed)" and g2: "m_router (fst ex_filed) = Some ex_router"
    and g3: "m_delegate (fst ex_filed) = Some 0"
    by (simp_all add: ex_filed_value)
  have o: "er_outcome ?env = Returned NoError" by (simp add: ex_env_def)
  have "\<exists>s. CalculateRoute_worker False ?env (fst ex_filed) (snd ex_filed) = Inr s"
    by (rule CalculateRoute_worker_returns) (simp_all add: ex_env_def)
  then obtain r' w' where run:
    "CalculateRoute_worker False ?env (fst ex_filed) (snd ex_filed) = Inr (r', w')"
    by auto
  from absent_fetch_and_upgrade [OF g1 g2 g3 o run] g1 g2 g3 o run show ?thesis
    by (auto simp: ex_env_def ex_filed_value ex_router_def)
qed

text \<open>
  Claim C8. When the worker's CalculateRoute finds no engine installed or no active
  delegate, it returns with nothing done but the has-request flag cleared: the engine
  and the fetcher are not called, no task (callback or statistics) is scheduled, the
  route counter stays.
\<close>

theorem request_dropped_silently:
  assumes "m_router r = None \<or> m_delegate r = None"
  shows "CalculateRoute_worker dbg env r w = Inr (r\<lparr>m_hasRequest := False\<rparr>, w)"
  using assms by (auto simp: CalculateRoute_worker_def take_snapshot_dropped)

theorem request_dropped_silently_witness:
  "(m_router ex_dispatcher = None \<or> m_delegate ex_dispatcher = None) \<and>
   CalculateRoute_worker False (ex_env (Returned NoError) []) (ex_dispatcher\<lparr>m_hasRequest := True\<rparr>) ex_world
     = Inr (ex_dispatcher, ex_world)"
proof -
  have h: "m_router (ex_dispatcher\<lparr>m_hasRequest := True\<rparr>) = None \<or>
           m_delegate (ex_dispatcher\<lparr>m_hasRequest := True\<rparr>) = None"
    by (simp add: ex_dispatcher_def AsyncRouter_new_def)
  from request_dropped_silently [OF h, of False "ex_env (Returned NoError) []" ex_world]
  show ?thesis
    by (simp add: ex_dispatcher_def AsyncRouter_new_def)
qed

subsection \<open>The statistics record\<close>

lemma dom_emplace: "dom (emplace k v m) = insert k (dom m)"
  by (auto simp: emplace_def split: option.splits)

lemma emplace_fresh: "k \<notin> dom m \<Longrightarrow> emplace k v m k = Some v"
  by (auto simp: emplace_def split: option.splits)

lemma emplace_other: "k' \<noteq> k \<Longrightarrow> emplace k v m k' = m k'"
  by (auto simp: emplace_def split: option.splits)

lemma dom_PrepareStatisticsData:
  "dom (PrepareStatisticsData fmt routerName startPoint startDirection finalPoint) =
     {''name'', ''startLon'', ''startLat'', ''startDirectionX'', ''startDirectionY'',
      ''finalLon'', ''finalLat''}"
  by (simp add: PrepareStatisticsData_def dom_emplace insert_commute)

text \<open>
  Claim C5. The result form of SendStatistics emits nothing when no sink is installed;
  with a sink it calls it once with a record whose keys are the seven of
  PrepareStatisticsData, result and elapsed, and distance if and only if the result
  code is NoError. The exception form emits nothing without a sink; with one, its
  record has the seven keys and exception (with the message), and none of result,
  elapsed, distance.
\<close>

theorem SendStatistics_keys:
  "SendStatistics fmt startPoint startDirection finalPoint code routeLenM elapsedSec None name w = w \<and>
   (\<exists>m. SendStatistics fmt startPoint startDirection finalPoint code routeLenM elapsedSec (Some sink)
          name w = w\<lparr>trace := trace w @ [CallStatistics sink m]\<rparr> \<and>
        dom m = {''name'', ''startLon'', ''startLat'', ''startDirectionX'', ''startDirectionY'',
                 ''finalLon'', ''finalLat'', ''result'', ''elapsed''} \<union>
                (if code = NoError then {''distance''} else {}) \<and>
        m ''result'' = Some (DebugPrint fmt code) \<and>
        m ''elapsed'' = Some (to_string fmt elapsedSec) \<and>
        (''distance'' \<in> dom m) = (code = NoError)) \<and>
   SendStatistics_exception fmt startPoint startDirection finalPoint msg None name w = w \<and>
   (\<exists>m. SendStatistics_exception fmt startPoint startDirection finalPoint msg (Some sink) name w =
          w\<lparr>trace := trace w @ [CallStatistics sink m]\<rparr> \<and>
        dom m = {''name'', ''startLon'', ''startLat'', ''startDirectionX'', ''startDirectionY'',
                 ''finalLon'', ''finalLat'', ''exception''} \<and>
        m ''exception'' = Some msg \<and>
        ''result'' \<notin> dom m \<and> ''elapsed'' \<notin> dom m \<and> ''distance'' \<notin> dom m)"
proof -
  let ?base = "PrepareStatisticsData fmt name startPoint startDirection finalPoint"
  let ?m1 = "emplace ''result'' (DebugPrint fmt code) ?base"
  let ?m2 = "emplace ''elapsed'' (to_string fmt elapsedSec) ?m1"
  let ?m3 = "if NoError = code then emplace ''distance'' (to_string fmt routeLenM) ?m2 else ?m2"
  let ?mx = "emplace ''exception'' msg ?base"
  have a: "SendStatistics fmt startPoint startDirection finalPoint code routeLenM elapsedSec None name w = w"
    by (simp add: SendStatistics_def)
  have b1: "SendStatistics fmt startPoint startDirection finalPoint code routeLenM elapsedSec
              (Some sink) name w = w\<lparr>trace := trace w @ [CallStatistics sink ?m3]\<rparr>"
    by (simp add: SendStatistics_def Let_def)
  have d1: "dom ?m1 = insert ''result'' (dom ?base)" by (rule dom_emplace)
  have d2: "dom ?m2 = insert ''elapsed'' (dom ?m1)" by (rule dom_emplace)
  have r1: "?m1 ''result'' = Some (DebugPrint fmt code)"
    by (rule emplace_fresh) (simp add: dom_PrepareStatisticsData)
  have r2: "?m2 ''result'' = Some (DebugPrint fmt code)"
    using r1 by (simp add: emplace_other)
  have e2: "?m2 ''elapsed'' = Some (to_string fmt elapsedSec)"
    by (rule emplace_fresh) (simp add: d1 dom_PrepareStatisticsData)
  have b2: "dom ?m3 = {''name'', ''startLon'', ''startLat'', ''startDirectionX'', ''startDirectionY'',
                 ''finalLon'', ''finalLat'', ''result'', ''elapsed''} \<union>
                (if code = NoError then {''distance''} else {})"
    by (auto simp: dom_emplace dom_PrepareStatisticsData)
  have b3: "?m3 ''result'' = Some (DebugPrint fmt code)"
    using r2 by (auto simp: emplace_other)
  have b4: "?m3 ''elapsed'' = Some (to_string fmt elapsedSec)"
    using e2 by (auto simp: emplace_other)
  have b5: "(''distance'' \<in> dom ?m3) = (code = NoError)"
    unfolding b2 by auto
  have c: "SendStatistics_exception fmt startPoint startDirection finalPoint msg None name w = w"
    by (simp add: SendStatistics_exception_def)
  have e1: "SendStatistics_exception fmt startPoint startDirection finalPoint msg (Some sink) name w =
          w\<lparr>trace := trace w @ [CallStatistics sink ?mx]\<rparr>"
    by (simp add: SendStatistics_exception_def Let_def)
  have x2: "dom ?mx = {''name'', ''startLon'', ''startLat'', ''startDirectionX'', ''startDirectionY'',
                 ''finalLon'', ''finalLat'', ''exception''}"
    by (auto simp: dom_emplace dom_PrepareStatisticsData)
  have x3: "?mx ''exception'' = Some msg"
    by (rule emplace_fresh) (simp add: dom_PrepareStatisticsData)
  have x4: "''result'' \<notin> dom ?mx \<and> ''elapsed'' \<notin> dom ?mx \<and> ''distance'' \<notin> dom ?mx"
    unfolding x2 by simp
  from b1 b2 b3 b4 b5 have B: "\<exists>m. SendStatistics fmt startPoint startDirection finalPoint code routeLenM elapsedSec (Some sink)
          name w = w\<lparr>trace := trace w @ [CallStatistics sink m]\<rparr> \<and>
        dom m = {''name'', ''startLon'', ''startLat'', ''startDirectionX'', ''startDirectionY'',
                 ''finalLon'', ''finalLat'', ''result'', ''elapsed''} \<union>
                (if code = NoError then {''distance''} else {}) \<and>
        m ''result'' = Some (DebugPrint fmt code) \<and>
        m ''elapsed'' = Some (to_string fmt elapsedSec) \<and>
        (''distance'' \<in> dom m) = (code = NoError)"
    by blast
  from e1 x2 x3 x4 have X: "\<exists>m. SendStatistics_exception fmt startPoint startDirection finalPoint msg (Some sink) name w =
          w\<lparr>trace := trace w @ [CallStatistics sink m]\<rparr> \<and>
        dom m = {''name'', ''startLon'', ''startLat'', ''startDirectionX'', ''startDirectionY'',
                 ''finalLon'', ''finalLat'', ''exception''} \<and>
        m ''exception'' = Some msg \<and>
        ''result'' \<notin> dom m \<and> ''elapsed'' \<notin> dom m \<and> ''distance'' \<notin> dom m"
    by blast
  from a B c X show ?thesis by blast
qed

theorem SendStatistics_keys_witness:
  "SendStatistics ex_fmt ex_point ex_point ex_point RouteNotFound 0 2 None ''vehicle'' ex_world = ex_world \<and>
   (\<exists>m. SendStatistics ex_fmt ex_point ex_point ex_point RouteNotFound 0 2 (Some 0) ''vehicle'' ex_world
          = ex_world\<lparr>trace := [CallStatistics 0 m]\<rparr> \<and>
        ''result'' \<in> dom m \<and> ''elapsed'' \<in> dom m \<and> ''distance'' \<notin> dom m) \<and>
   (\<exists>m. SendStatistics_exception ex_fmt ex_point ex_point ex_point ''bad mwm'' (Some 0) ''vehicle'' ex_world
          = ex_world\<lparr>trace := [CallStatistics 0 m]\<rparr> \<and>
        m ''exception'' = Some ''bad mwm'' \<and> ''result'' \<notin> dom m)"
  using SendStatistics_keys [of ex_fmt ex_point ex_point ex_point RouteNotFound 0 2 "''vehicle''"
      ex_world 0 "''bad mwm''"]
  by (auto simp: ex_world_def)

subsection \<open>ClearState, and the exit of the worker\<close>

lemma ex_unrouted_value:
  "ex_unrouted =
     (\<lparr>m_threadExit = False, m_hasRequest = True, m_clearState = False,
        m_routingStatisticsCallback = Some 0, m_pointCheckCallback = None,
        m_router = None, m_absentFetcher = None,
        m_checkpoints = ex_checkpoints, m_startDirection = ex_point,
        m_adjustToPrevRoute = False, m_delegate = Some 0, m_routeCounter = 0\<rparr>,
      \<lparr>heap = [RouterDelegateProxy_new (Some 1) (Some 2) (Some 3) None (Some 4) 30],
        gui = [], trace = [], calls = [], logs = []\<rparr>)"
  by (simp add: ex_unrouted_def ResetDelegate_def ex_dispatcher_def AsyncRouter_new_def
      CalculateRoute_def make_shared_proxy_def ex_world_def)

lemma Cancel_frame:
  "gui (Cancel d w) = gui w \<and> trace (Cancel d w) = trace w \<and> calls (Cancel d w) = calls w \<and>
   logs (Cancel d w) = logs w"
  by (simp add: Cancel_def split: option.splits)

text \<open>
  Claim C7, as stated, fails: on a dispatcher with no engine and a filed request,
  ClearState sets the clear-state flag and cancels and uninstalls the active delegate.
\<close>

theorem ClearState_no_engine_counterexample:
  "m_router (fst ex_unrouted) = None \<and>
   ClearState (fst ex_unrouted) (snd ex_unrouted) \<noteq> ex_unrouted \<and>
   \<not> m_clearState (fst ex_unrouted) \<and>
   m_clearState (fst (ClearState (fst ex_unrouted) (snd ex_unrouted))) \<and>
   m_delegate (fst ex_unrouted) = Some 0 \<and>
   m_delegate (fst (ClearState (fst ex_unrouted) (snd ex_unrouted))) = None \<and>
   \<not> is_cancelled (snd ex_unrouted) 0 \<and>
   is_cancelled (snd (ClearState (fst ex_unrouted) (snd ex_unrouted))) 0"
  by (simp add: ex_unrouted_value ClearState_def ResetDelegate_def Cancel_def proxy_at_def
      is_cancelled_def RouterDelegateProxy_new_def RouterDelegate_SetTimeout_def
      RouterDelegate_Reset_def RouterDelegate_IsCancelled_def RouterDelegate_Cancel_def)

text \<open>
  Claim C7, amended. On a dispatcher with no engine installed, ClearState calls neither
  engine nor fetcher, schedules nothing and calls no user code, and leaves the engine,
  the fetcher, the pending-request fields, the has-request and exit flags and the route
  counter as they were; it sets the clear-state flag and cancels and uninstalls the
  active delegate, if there is one. The worker's next turn leaves the clear-state flag
  set (it resets it only when an engine is installed), and drops a pending request.
\<close>

theorem ClearState_without_engine:
  assumes "m_router r = None" and "ClearState r w = (r1, w1)"
  shows "r1 = r\<lparr>m_clearState := True, m_delegate := None\<rparr> \<and>
         w1 = (case m_delegate r of Some d \<Rightarrow> Cancel d w | None \<Rightarrow> w) \<and>
         gui w1 = gui w \<and> trace w1 = trace w \<and> calls w1 = calls w \<and> logs w1 = logs w \<and>
         ThreadFunc_turn dbg env r1 w1 =
           Inr (if m_threadExit r then Exited else Again,
                r1\<lparr>m_hasRequest := m_hasRequest r \<and> m_threadExit r\<rparr>, w1)"
proof -
  from assms(2) have r1: "r1 = r\<lparr>m_clearState := True, m_delegate := None\<rparr>"
    and w1: "w1 = (case m_delegate r of Some d \<Rightarrow> Cancel d w | None \<Rightarrow> w)"
    by (auto simp: ClearState_def ResetDelegate_def split: option.splits)
  from w1 have fr: "gui w1 = gui w \<and> trace w1 = trace w \<and> calls w1 = calls w \<and> logs w1 = logs w"
    by (simp add: Cancel_frame split: option.splits)
  have nr: "m_router r1 = None" using assms(1) r1 by simp
  have t: "ThreadFunc_turn dbg env r1 w1 =
           Inr (if m_threadExit r then Exited else Again,
                r1\<lparr>m_hasRequest := m_hasRequest r \<and> m_threadExit r\<rparr>, w1)"
  proof (cases "m_threadExit r")
    case True
    then show ?thesis using nr r1 by (simp add: ThreadFunc_turn_def)
  next
    case False
    show ?thesis
    proof (cases "m_hasRequest r")
      case True
      have "CalculateRoute_worker dbg env r1 w1 = Inr (r1\<lparr>m_hasRequest := False\<rparr>, w1)"
        using nr by (auto simp: CalculateRoute_worker_def take_snapshot_dropped)
      with False True nr r1 show ?thesis by (simp add: ThreadFunc_turn_def)
    next
      case nh: False
      with False nr r1 show ?thesis by (simp add: ThreadFunc_turn_def)
    qed
  qed
  from r1 w1 fr t show ?thesis by blast
qed

theorem ClearState_without_engine_witness:
  "m_router (fst ex_unrouted) = None \<and>
   ClearState (fst ex_unrouted) (snd ex_unrouted) =
     ((fst ex_unrouted)\<lparr>m_clearState := True, m_delegate := None\<rparr>, Cancel 0 (snd ex_unrouted)) \<and>
   gui (Cancel 0 (snd ex_unrouted)) = [] \<and> calls (Cancel 0 (snd ex_unrouted)) = [] \<and>
   ThreadFunc_turn False (ex_env (Returned NoError) [])
       ((fst ex_unrouted)\<lparr>m_clearState := True, m_delegate := None\<rparr>) (Cancel 0 (snd ex_unrouted)) =
     Inr (Again, (fst ex_unrouted)\<lparr>m_clearState := True, m_delegate := None, m_hasRequest := False\<rparr>,
          Cancel 0 (snd ex_unrouted))"
proof -
  have h1: "m_router (fst ex_unrouted) = None" by (simp add: ex_unrouted_value)
  have h2: "ClearState (fst ex_unrouted) (snd ex_unrouted) =
     ((fst ex_unrouted)\<lparr>m_clearState := True, m_delegate := None\<rparr>, Cancel 0 (snd ex_unrouted))"
    by (simp add: ex_unrouted_value ClearState_def ResetDelegate_def)
  from ClearState_without_engine [OF h1 h2, of False "ex_env (Returned NoError) []"] h1 h2
  show ?thesis by (simp add: ex_unrouted_value)
qed

text \<open>
  Claim C10. A turn of the worker that finds the exit flag set leaves the loop whether
  or not a request is pending: the request is not processed (has-request and the route
  counter stay, nothing is scheduled, no user code runs, CalculateRoute of the engine
  and the fetcher are not called). The clear-state handling comes first: with the flag
  set and an engine installed, the engine's ClearState is called and the flag reset.
  So the destructor, which cancels and uninstalls the delegate and sets the exit flag,
  has its join return after one turn of the worker, for any pending request.
\<close>

theorem exit_check_precedes_request_check:
  "ThreadFunc_turn dbg env (r\<lparr>m_threadExit := True\<rparr>) w =
     Inr (Exited,
          r\<lparr>m_threadExit := True, m_clearState := m_clearState r \<and> m_router r = None\<rparr>,
          w\<lparr>calls := calls w @
               (case m_router r of
                  Some router \<Rightarrow> if m_clearState r then [RouterClearState router] else []
                | None \<Rightarrow> [])\<rparr>) \<and>
   AsyncRouter_destroy (Suc n) dbg envs r w =
     Inr (Exited,
          r\<lparr>m_delegate := None, m_threadExit := True,
            m_clearState := m_clearState r \<and> m_router r = None\<rparr>,
          (case m_delegate r of Some d \<Rightarrow> Cancel d w | None \<Rightarrow> w)
            \<lparr>calls := calls w @
               (case m_router r of
                  Some router \<Rightarrow> if m_clearState r then [RouterClearState router] else []
                | None \<Rightarrow> [])\<rparr>)"
proof -
  have turn: "\<And>r w. ThreadFunc_turn dbg env (r\<lparr>m_threadExit := True\<rparr>) w =
     Inr (Exited,
          r\<lparr>m_threadExit := True, m_clearState := m_clearState r \<and> m_router r = None\<rparr>,
          w\<lparr>calls := calls w @
               (case m_router r of
                  Some router \<Rightarrow> if m_clearState r then [RouterClearState router] else []
                | None \<Rightarrow> [])\<rparr>)" for env
    by (auto simp: ThreadFunc_turn_def call_out_def split: option.splits)
  have "AsyncRouter_destroy (Suc n) dbg envs r w =
     Inr (Exited,
          r\<lparr>m_delegate := None, m_threadExit := True,
            m_clearState := m_clearState r \<and> m_router r = None\<rparr>,
          (case m_delegate r of Some d \<Rightarrow> Cancel d w | None \<Rightarrow> w)
            \<lparr>calls := calls w @
               (case m_router r of
                  Some router \<Rightarrow> if m_clearState r then [RouterClearState router] else []
                | None \<Rightarrow> [])\<rparr>)"
  proof (cases "m_delegate r")
    case None
    then have "r\<lparr>m_delegate := None\<rparr> = r" by simp
    with None show ?thesis
      using turn [of "envs n" r w]
      by (simp add: AsyncRouter_destroy_def ResetDelegate_def)
  next
    case (Some d)
    then show ?thesis
      using turn [of "envs n" "r\<lparr>m_delegate := None\<rparr>" "Cancel d w"]
      by (cases "m_router r") (simp_all add: AsyncRouter_destroy_def ResetDelegate_def Cancel_frame)
  qed
  with turn [of env r w] show ?thesis by blast
qed

theorem exit_check_precedes_request_check_witness:
  "m_hasRequest (fst ex_filed) \<and>
   ThreadFunc_turn False (ex_env (Returned NoError) []) ((fst ex_filed)\<lparr>m_threadExit := True\<rparr>)
       (snd ex_filed) =
     Inr (Exited, (fst ex_filed)\<lparr>m_threadExit := True\<rparr>, snd ex_filed) \<and>
   AsyncRouter_destroy 1 False (\<lambda>n. ex_env (Returned NoError) []) (fst ex_filed) (snd ex_filed) =
     Inr (Exited, (fst ex_filed)\<lparr>m_delegate := None, m_threadExit := True\<rparr>, Cancel 0 (snd ex_filed)) \<and>
   m_hasRequest ((fst ex_filed)\<lparr>m_delegate := None, m_threadExit := True\<rparr>) \<and>
   gui (Cancel 0 (snd ex_filed)) = [] \<and> trace (Cancel 0 (snd ex_filed)) = [] \<and>
   calls (Cancel 0 (snd ex_filed)) = []"
  using exit_check_precedes_request_check [of False "ex_env (Returned NoError) []" "fst ex_filed"
      "snd ex_filed" 0 "\<lambda>n. ex_env (Returned NoError) []"]
  by (simp add: ex_filed_value Cancel_frame)

subsection \<open>The delegate of a finished request\<close>

lemma is_cancelled_api_call:
  assumes "is_api_call a" "m_delegate r = Some d" "d < length (heap w)"
      and "step fmt dbg a (r, w) = Inr (r'', w'')"
  shows "is_cancelled w'' d"
proof -
  have c: "is_cancelled (Cancel d w) d" using assms(3) by (rule is_cancelled_Cancel)
  have rd: "ResetDelegate r0 w = (r0\<lparr>m_delegate := None\<rparr>, Cancel d w)" if "m_delegate r0 = Some d" for r0
    using that by (simp add: ResetDelegate_def)
  show ?thesis
  proof (cases a)
    case (ActSetRouter router fetcher)
    with assms(4) rd [OF assms(2)] c show ?thesis by (auto simp: SetRouter_def)
  next
    case (ActCalculateRoute cps dir adj c1 c2 c3 c4 t)
    let ?r1 = "r\<lparr>m_checkpoints := cps, m_startDirection := dir, m_adjustToPrevRoute := adj\<rparr>"
    have "m_delegate ?r1 = Some d" using assms(2) by simp
    from rd [OF this] ActCalculateRoute assms(4) obtain px q where
      "make_shared_proxy px (Cancel d w) = (q, w'')"
      by (auto simp: CalculateRoute_def Let_def split: prod.splits)
    with c show ?thesis by (rule is_cancelled_make_shared_proxy)
  next
    case ActClearState
    have "m_delegate (r\<lparr>m_clearState := True\<rparr>) = Some d" using assms(2) by simp
    from rd [OF this] ActClearState assms(4) c show ?thesis by (auto simp: ClearState_def)
  next
    case (ActWorker env)
    with assms(1) show ?thesis by simp
  next
    case ActGui
    with assms(1) show ?thesis by simp
  qed
qed

lemma silent_run_task:
  "is_cancelled w d \<Longrightarrow> task_delegate t = Some d \<Longrightarrow> run_task fmt t w = w"
  by (cases t) (simp_all add: silent_OnReady silent_OnNeedMoreMaps silent_OnRemoveRoute)

text \<open>
  Claim C9, as stated, fails in its last part: a progress task of the finished request
  that is still in the GUI queue when the next call cancels the delegate is not
  dropped. The task holds the progress callback itself, not the proxy, and calls it.
  Here the engine reports progress once and returns NoError, ClearState follows, and
  the GUI thread then runs its oldest task: the user's progress callback (4) is called
  although its proxy (0) is cancelled.
\<close>

theorem pending_progress_task_counterexample:
  "(case run ex_fmt False [ActWorker (ex_env (Returned NoError) []), ActClearState] ex_filed of
      Inr (r, w) \<Rightarrow>
        is_cancelled w 0 \<and> hd (gui w) = TaskOnProgress 4 1 \<and> trace w = [] \<and>
        trace (gui_step ex_fmt w) = [CallOnProgress 4 1]
    | Inl e \<Rightarrow> False)"
  by (simp add: Let_def ex_filed_value ThreadFunc_turn_def worker_eval ClearState_def ResetDelegate_def Cancel_def
      is_cancelled_def RouterDelegate_Cancel_def gui_step_def ex_router_def)

text \<open>
  Claim C9, amended. An execution of the worker's CalculateRoute that passes the guards
  changes two fields of the dispatcher only: has-request is cleared and the route
  counter is one more; the checkpoints, the start direction, the adjust flag, the
  engine, the fetcher and the active delegate are as before. So the finished request's
  proxy is still installed, and the next call of CalculateRoute, SetRouter or
  ClearState cancels it; from then on, whatever else happens, every task that goes
  through that proxy (OnReady, OnNeedMoreMaps, OnRemoveRoute) and has not run yet does
  nothing when it runs. (Tasks
  already queued by the proxy's listeners, and statistics tasks, do not go through the
  proxy and still run.)
\<close>

theorem finished_delegate_cancelled_by_next_call:
  assumes "m_hasRequest r" "m_router r = Some router" "m_delegate r = Some d" "d < length (heap w)"
      and "CalculateRoute_worker dbg env r w = Inr (r', w')"
      and "is_api_call a" "step fmt dbg a (r', w') = Inr (r'', w'')"
      and "run fmt dbg acts (r'', w'') = Inr (r3, w3)"
      and "task_delegate t = Some d"
  shows "r' = r\<lparr>m_hasRequest := False, m_routeCounter := m_routeCounter r + 1\<rparr> \<and>
         is_cancelled w'' d \<and>
         is_cancelled w3 d \<and>
         run_task fmt t w3 = w3"
proof -
  from worker_executed [OF assms(1,2,3,5)]
  have r': "r' = r\<lparr>m_hasRequest := False, m_routeCounter := m_routeCounter r + 1\<rparr>" by simp
  then have d': "m_delegate r' = Some d" using assms(3) by simp
  from assms(5) have "heap w' = heap w" by (rule heap_CalculateRoute_worker)
  with assms(4) have "d < length (heap w')" by simp
  with assms(6) d' have c: "is_cancelled w'' d" using assms(7) by (rule is_cancelled_api_call)
  then have c3: "is_cancelled w3 d" using assms(8) by (rule is_cancelled_run)
  from c3 assms(9) have "run_task fmt t w3 = w3" by (rule silent_run_task)
  with r' c c3 show ?thesis by blast
qed

theorem finished_delegate_cancelled_by_next_call_witness:
  "m_hasRequest (fst ex_filed) \<and> m_router (fst ex_filed) = Some ex_router \<and>
   m_delegate (fst ex_filed) = Some 0 \<and> 0 < length (heap (snd ex_filed)) \<and>
   is_api_call ActClearState \<and> task_delegate (TaskOnRemoveRoute 0 RouteNotFound) = Some 0 \<and>
   (\<exists>r' w' r'' w'' r3 w3.
      CalculateRoute_worker False (ex_env (Returned RouteNotFound) []) (fst ex_filed) (snd ex_filed)
        = Inr (r', w') \<and>
      step ex_fmt False ActClearState (r', w') = Inr (r'', w'') \<and>
      run ex_fmt False [ActGui, ActGui] (r'', w'') = Inr (r3, w3) \<and>
      r' = (fst ex_filed)\<lparr>m_hasRequest := False, m_routeCounter := 1\<rparr> \<and>
      gui w3 = [TaskOnRemoveRoute 0 RouteNotFound] \<and>
      is_cancelled w'' 0 \<and>
      is_cancelled w3 0 \<and>
      run_task ex_fmt (TaskOnRemoveRoute 0 RouteNotFound) w3 = w3)"
proof -
  let ?env = "ex_env (Returned RouteNotFound) []"
  have g1: "m_hasRequest (fst ex_filed)" and g2: "m_router (fst ex_filed) = Some ex_router"
    and g3: "m_delegate (fst ex_filed) = Some 0" and g4: "0 < length (heap (snd ex_filed))"
    by (simp_all add: ex_filed_value)
  have a: "is_api_call ActClearState" and t: "task_delegate (TaskOnRemoveRoute 0 RouteNotFound) = Some 0"
    by simp_all
  obtain r' w' where run:
    "CalculateRoute_worker False ?env (fst ex_filed) (snd ex_filed) = Inr (r', w')"
    using CalculateRoute_worker_returns [of False ?env "fst ex_filed" "snd ex_filed"]
    by (auto simp: ex_env_def)
  obtain r'' w'' where st: "step ex_fmt False ActClearState (r', w') = Inr (r'', w'')"
    by (cases "ClearState r' w'") simp
  obtain r3 w3 where rn: "run ex_fmt False [ActGui, ActGui] (r'', w'') = Inr (r3, w3)"
    by simp
  have q: "gui w3 = [TaskOnRemoveRoute 0 RouteNotFound]"
    using run st rn
    by (auto simp: Let_def ex_filed_value worker_eval ClearState_def ResetDelegate_def Cancel_def
        ex_router_def gui_step_def SendStatistics_def split: option.splits)
  from finished_delegate_cancelled_by_next_call [OF g1 g2 g3 g4 run a st rn t] g1 g2 g3 g4 a t run st rn q
  show ?thesis
    by (simp add: ex_filed_value)
qed

subsection \<open>Route ids\<close>

lemma produced_ids_append: "produced_ids (xs @ ys) = produced_ids xs @ produced_ids ys"
  by (induction xs rule: produced_ids.induct) simp_all

lemma ids_from_0: "ids_from c 0 = []"
  by (simp add: ids_from_def)

lemma ids_from_1: "ids_from c (Suc 0) = [c + 1]"
  by (simp add: ids_from_def)

lemma length_ids_from: "length (ids_from c n) = n"
  by (simp add: ids_from_def)

lemma nth_ids_from: "i < n \<Longrightarrow> ids_from c n ! i = c + of_nat (Suc i)"
  by (simp add: ids_from_def nth_append del: upt_Suc)

lemma ids_from_add: "ids_from c (k + n) = ids_from c k @ ids_from (c + of_nat k) n"
proof (rule nth_equalityI)
  show "length (ids_from c (k + n)) = length (ids_from c k @ ids_from (c + of_nat k) n)"
    by (simp add: length_ids_from)
next
  fix i assume "i < length (ids_from c (k + n))"
  then have i: "i < k + n" by (simp add: length_ids_from)
  show "ids_from c (k + n) ! i = (ids_from c k @ ids_from (c + of_nat k) n) ! i"
  proof (cases "i < k")
    case True
    with i show ?thesis by (simp add: nth_append length_ids_from nth_ids_from)
  next
    case False
    then have "i - k < n" using i by simp
    with False i show ?thesis
      by (simp add: nth_append length_ids_from nth_ids_from add.assoc [symmetric] of_nat_add [symmetric] del: of_nat_add of_nat_Suc)
  qed
qed

lemma unat_counter_plus:
  "unat (c :: 64 word) + k < 2 ^ 64 \<Longrightarrow> unat (c + of_nat k) = unat c + k"
  by (simp add: unat_word_ariths unat_of_nat)

lemma ids_from_sorted:
  assumes "unat c + n < 2 ^ 64"
  shows "sorted_wrt (<) (ids_from c n)"
proof -
  have "ids_from c n ! i < ids_from c n ! j" if "i < j" "j < n" for i j
  proof -
    from that assms have "unat (c + of_nat (Suc i)) = unat c + Suc i"
      and "unat (c + of_nat (Suc j)) = unat c + Suc j"
      by (simp_all add: unat_counter_plus del: of_nat_Suc)
    with that show ?thesis
      by (simp add: nth_ids_from word_less_nat_alt del: of_nat_Suc)
  qed
  then show ?thesis
    by (simp add: sorted_wrt_iff_nth_less length_ids_from)
qed

lemma ids_from_distinct:
  assumes "unat c + n < 2 ^ 64"
  shows "distinct (ids_from c n)"
  using ids_from_sorted [OF assms] by (simp add: strict_sorted_iff)

lemma calls_Cancel: "calls (Cancel d w) = calls w"
  by (simp add: Cancel_def split: option.splits)

lemma ResetDelegate_frame:
  "ResetDelegate r w = (r', w') \<Longrightarrow> calls w' = calls w \<and> m_routeCounter r' = m_routeCounter r \<and>
     m_router r' = m_router r \<and> m_threadExit r' = m_threadExit r"
  by (auto simp: ResetDelegate_def calls_Cancel split: option.splits)

lemma api_call_frame:
  assumes "is_api_call a" "step fmt dbg a (r, w) = Inr (r', w')"
  shows "calls w' = calls w \<and> m_routeCounter r' = m_routeCounter r"
proof (cases a)
  case (ActSetRouter router fetcher)
  with assms(2) show ?thesis
    by (auto simp: SetRouter_def split: prod.splits dest: ResetDelegate_frame)
next
  case (ActCalculateRoute cps dir adj c1 c2 c3 c4 t)
  with assms(2) show ?thesis
    by (auto simp: CalculateRoute_def Let_def make_shared_proxy_def split: prod.splits
        dest: ResetDelegate_frame)
next
  case ActClearState
  with assms(2) show ?thesis
    by (auto simp: ClearState_def dest: ResetDelegate_frame)
next
  case (ActWorker env)
  with assms(1) show ?thesis by simp
next
  case ActGui
  with assms(1) show ?thesis by simp
qed

lemma calls_run_task: "calls (run_task fmt t w) = calls w"
  by (cases t)
     (simp_all add: SendStatistics_def SendStatistics_exception_def OnReady_def OnNeedMoreMaps_def
        OnRemoveRoute_def Let_def split: option.splits)

lemma calls_gui_step: "calls (gui_step fmt w) = calls w"
  by (simp add: gui_step_def calls_run_task split: list.splits)

lemma no_new_ids:
  fixes w w1 :: world and r r0 :: AsyncRouter
  assumes "calls w1 = calls w @ new0" "produced_ids new0 = []" "m_routeCounter r0 = m_routeCounter r"
  shows "\<exists>new k. calls w1 = calls w @ new \<and> k \<le> 1 \<and>
           produced_ids new = ids_from (m_routeCounter r) k \<and>
           m_routeCounter r0 = m_routeCounter r + of_nat k"
proof -
  from assms have "calls w1 = calls w @ new0 \<and> (0::nat) \<le> 1 \<and>
           produced_ids new0 = ids_from (m_routeCounter r) 0 \<and>
           m_routeCounter r0 = m_routeCounter r + of_nat 0"
    by (simp add: ids_from_0)
  then show ?thesis by blast
qed

lemma worker_executed_ids:
  assumes g: "m_hasRequest r" "m_router r = Some router" "m_delegate r = Some d"
      and run: "CalculateRoute_worker dbg env r w = Inr (r', w')"
  shows "\<exists>new. calls w' = calls w @ new \<and> produced_ids new = [m_routeCounter r + 1]"
proof -
  let ?l = "\<lparr>l_delegate = d,
            l_checkpoints = m_checkpoints r,
            l_startDirection = m_startDirection r,
            l_adjustToPrevRoute = m_adjustToPrevRoute r,
            l_absentFetcher = m_absentFetcher r,
            l_router = router,
            l_routeId = m_routeCounter r + 1,
            l_routingStatisticsCallback = m_routingStatisticsCallback r,
            l_routerName = GetName router\<rparr>"
  from worker_executed [OF g run] have ex: "execute dbg env ?l w = Inr w'" by simp
  show ?thesis
  proof (cases "er_outcome env")
    case (Returned code)
    from worker_returned_shape [OF g Returned run] obtain new where
      "calls w' = calls w @ new" and "produced_ids new = [m_routeCounter r + 1]"
      by (auto simp: produced_ids_append split: option.splits)
    then show ?thesis by blast
  next
    case (ThrewRoot msg)
    from execute_threw [OF ThrewRoot ex] obtain new where
      "calls w' = calls w @ new" and "produced_ids new = [m_routeCounter r + 1]"
      by (auto simp: produced_ids_append split: option.splits)
    then show ?thesis by blast
  next
    case ThrewOther
    with execute_not_other [OF ex] show ?thesis by simp
  qed
qed

lemma worker_ids:
  assumes "CalculateRoute_worker dbg env r w = Inr (r', w')"
  shows "\<exists>new k. calls w' = calls w @ new \<and> k \<le> 1 \<and>
           produced_ids new = ids_from (m_routeCounter r) k \<and>
           m_routeCounter r' = m_routeCounter r + of_nat k"
proof (cases "\<not> m_hasRequest r \<or> m_router r = None \<or> m_delegate r = None")
  case True
  with assms have "r' = r\<lparr>m_hasRequest := False\<rparr>" and "w' = w"
    by (auto simp: CalculateRoute_worker_def take_snapshot_dropped)
  then have "calls w' = calls w @ []" "produced_ids [] = []" "m_routeCounter r' = m_routeCounter r"
    by simp_all
  then show ?thesis by (rule no_new_ids)
next
  case False
  then obtain router d where g: "m_hasRequest r" "m_router r = Some router" "m_delegate r = Some d"
    by auto
  from worker_executed [OF g assms]
  have r': "r' = r\<lparr>m_hasRequest := False, m_routeCounter := m_routeCounter r + 1\<rparr>" by simp
  from worker_executed_ids [OF g assms] obtain new where
    "calls w' = calls w @ new" "produced_ids new = [m_routeCounter r + 1]" by blast
  with r' have "calls w' = calls w @ new \<and> (1::nat) \<le> 1 \<and>
           produced_ids new = ids_from (m_routeCounter r) 1 \<and>
           m_routeCounter r' = m_routeCounter r + of_nat 1"
    by (simp add: ids_from_1)
  then show ?thesis by blast
qed

lemma turn_ids:
  assumes "ThreadFunc_turn dbg env r w = Inr (st, r', w')"
  shows "\<exists>new k. calls w' = calls w @ new \<and> k \<le> 1 \<and>
           produced_ids new = ids_from (m_routeCounter r) k \<and>
           m_routeCounter r' = m_routeCounter r + of_nat k"
proof -
  define pre where "pre = (case m_router r of
                  Some router \<Rightarrow> if m_clearState r then [RouterClearState router] else []
                | None \<Rightarrow> [])"
  define r1 where "r1 = (case m_router r of
                  Some router \<Rightarrow> if m_clearState r then r\<lparr>m_clearState := False\<rparr> else r
                | None \<Rightarrow> r)"
  have pre: "produced_ids pre = []" by (simp add: pre_def split: option.splits)
  have c1: "m_routeCounter r1 = m_routeCounter r" by (simp add: r1_def split: option.splits)
  show ?thesis
  proof (cases "m_threadExit r \<or> m_hasRequest r \<or> m_clearState r")
    case False
    with assms have "r' = r" "w' = w" by (auto simp: ThreadFunc_turn_def)
    then have "calls w' = calls w @ []" "produced_ids [] = []" "m_routeCounter r' = m_routeCounter r"
      by simp_all
    then show ?thesis by (rule no_new_ids)
  next
    case True
    have split: "(case m_router r of
                  Some router \<Rightarrow>
                    if m_clearState r
                    then (r\<lparr>m_clearState := False\<rparr>, call_out (RouterClearState router) w)
                    else (r, w)
                | None \<Rightarrow> (r, w)) = (r1, w\<lparr>calls := calls w @ pre\<rparr>)"
      by (simp add: r1_def pre_def call_out_def split: option.splits)
    show ?thesis
    proof (cases "m_threadExit r1 \<or> \<not> m_hasRequest r1")
      case stop: True
      with assms True split have "r' = r1" "w' = w\<lparr>calls := calls w @ pre\<rparr>"
        by (auto simp: ThreadFunc_turn_def split: if_splits)
      with pre c1 have "calls w' = calls w @ pre" "produced_ids pre = []"
        "m_routeCounter r' = m_routeCounter r"
        by simp_all
      then show ?thesis by (rule no_new_ids)
    next
      case go: False
      with assms True split have wk: "CalculateRoute_worker dbg env r1 (w\<lparr>calls := calls w @ pre\<rparr>) = Inr (r', w')"
        by (auto simp: ThreadFunc_turn_def split: if_splits sum.splits)
      from worker_ids [OF wk] obtain new k where
        "calls w' = (calls w @ pre) @ new" "k \<le> 1" "produced_ids new = ids_from (m_routeCounter r1) k"
        "m_routeCounter r' = m_routeCounter r1 + of_nat k" by auto
      then have "calls w' = calls w @ (pre @ new) \<and> k \<le> 1 \<and>
           produced_ids (pre @ new) = ids_from (m_routeCounter r) k \<and>
           m_routeCounter r' = m_routeCounter r + of_nat k"
        using pre c1 by (simp add: produced_ids_append)
      then show ?thesis by blast
    qed
  qed
qed

lemma step_ids:
  assumes "step fmt dbg a (r, w) = Inr (r', w')"
  shows "\<exists>new k. calls w' = calls w @ new \<and> k \<le> 1 \<and>
           produced_ids new = ids_from (m_routeCounter r) k \<and>
           m_routeCounter r' = m_routeCounter r + of_nat k"
proof -
  show ?thesis
  proof (cases "is_api_call a")
    case True
    from api_call_frame [OF True assms]
    have "calls w' = calls w @ []" "produced_ids [] = []" "m_routeCounter r' = m_routeCounter r"
      by simp_all
    then show ?thesis by (rule no_new_ids)
  next
    case False
    show ?thesis
    proof (cases a)
      case (ActWorker env)
      with assms obtain st where "ThreadFunc_turn dbg env r w = Inr (st, r', w')"
        by (auto split: sum.splits)
      then show ?thesis by (rule turn_ids)
    next
      case ActGui
      with assms have "calls w' = calls w @ []" "produced_ids [] = []"
        "m_routeCounter r' = m_routeCounter r"
        by (auto simp: calls_gui_step)
      then show ?thesis by (rule no_new_ids)
    qed (use False in simp_all)
  qed
qed

lemma run_ids:
  "run fmt dbg acts (r, w) = Inr (r', w') \<Longrightarrow>
   \<exists>new n. calls w' = calls w @ new \<and> n \<le> length acts \<and>
           produced_ids new = ids_from (m_routeCounter r) n \<and>
           m_routeCounter r' = m_routeCounter r + of_nat n"
proof (induction acts arbitrary: r w)
  case Nil
  then have "calls w' = calls w @ [] \<and> (0::nat) \<le> length ([] :: action list) \<and>
           produced_ids [] = ids_from (m_routeCounter r) 0 \<and>
           m_routeCounter r' = m_routeCounter r + of_nat 0"
    by (simp add: ids_from_0)
  then show ?case by blast
next
  case (Cons a acts)
  then obtain r1 w1 where s: "step fmt dbg a (r, w) = Inr (r1, w1)"
    and rest: "run fmt dbg acts (r1, w1) = Inr (r', w')"
    by (auto split: sum.splits)
  from step_ids [OF s] obtain new1 k where
    1: "calls w1 = calls w @ new1" "k \<le> 1" "produced_ids new1 = ids_from (m_routeCounter r) k"
       "m_routeCounter r1 = m_routeCounter r + of_nat k" by auto
  from Cons.IH [OF rest] obtain new2 n where
    2: "calls w' = calls w1 @ new2" "n \<le> length acts"
       "produced_ids new2 = ids_from (m_routeCounter r1) n"
       "m_routeCounter r' = m_routeCounter r1 + of_nat n" by auto
  from 1 2 have "calls w' = calls w @ (new1 @ new2) \<and> k + n \<le> length (a # acts) \<and>
           produced_ids (new1 @ new2) = ids_from (m_routeCounter r) (k + n) \<and>
           m_routeCounter r' = m_routeCounter r + of_nat (k + n)"
    by (simp add: produced_ids_append ids_from_add)
  then show ?case by blast
qed

lemma run_append:
  "run fmt dbg (xs @ ys) s =
     (case run fmt dbg xs s of Inl e \<Rightarrow> Inl e | Inr s' \<Rightarrow> run fmt dbg ys s')"
  by (induction xs arbitrary: s) (auto split: sum.splits)

lemma CalculateRoute_files:
  assumes "CalculateRoute cps dir adj c1 c2 c3 c4 t r w = (r1, w1)"
  shows "m_router r1 = m_router r \<and> m_threadExit r1 = m_threadExit r \<and> m_hasRequest r1 \<and>
         m_routeCounter r1 = m_routeCounter r \<and> calls w1 = calls w \<and>
         (\<exists>d. m_delegate r1 = Some d)"
  using assms
  by (auto simp: CalculateRoute_def Let_def make_shared_proxy_def ResetDelegate_def calls_Cancel
      split: prod.splits option.splits)

lemma ex_round:
  assumes "m_router r = Some router" "\<not> m_threadExit r"
  shows "\<exists>r' w'. run fmt False [ex_request, ActWorker (ex_env (Returned NoError) [])] (r, w) = Inr (r', w') \<and>
           m_router r' = Some router \<and> \<not> m_threadExit r' \<and>
           m_routeCounter r' = m_routeCounter r + 1 \<and>
           produced_ids (calls w') = produced_ids (calls w) @ [m_routeCounter r + 1]"
proof -
  let ?env = "ex_env (Returned NoError) []"
  obtain r1 w1 where req:
    "CalculateRoute ex_checkpoints ex_point False (Some 1) (Some 2) (Some 3) (Some 4) 30 r w = (r1, w1)"
    by (cases "CalculateRoute ex_checkpoints ex_point False (Some 1) (Some 2) (Some 3) (Some 4) 30 r w")
  from CalculateRoute_files [OF req] assms obtain d where
    f: "m_router r1 = Some router" "\<not> m_threadExit r1" "m_hasRequest r1"
       "m_routeCounter r1 = m_routeCounter r" "calls w1 = calls w" "m_delegate r1 = Some d"
    by auto
  define r1c where "r1c = (if m_clearState r1 then r1\<lparr>m_clearState := False\<rparr> else r1)"
  define w1c where "w1c = (if m_clearState r1 then call_out (RouterClearState router) w1 else w1)"
  have g: "m_hasRequest r1c" "m_router r1c = Some router" "m_delegate r1c = Some d"
    and c: "m_routeCounter r1c = m_routeCounter r" and e: "\<not> m_threadExit r1c"
    using f by (simp_all add: r1c_def)
  have pc: "produced_ids (calls w1c) = produced_ids (calls w)"
    using f by (simp add: w1c_def call_out_def produced_ids_append)
  obtain r2 w2 where wk: "CalculateRoute_worker False ?env r1c w1c = Inr (r2, w2)"
    using CalculateRoute_worker_returns [of False ?env r1c w1c] by (auto simp: ex_env_def)
  from worker_executed [OF g wk]
  have r2: "r2 = r1c\<lparr>m_hasRequest := False, m_routeCounter := m_routeCounter r1c + 1\<rparr>" by simp
  from worker_executed_ids [OF g wk] obtain new where
    n: "calls w2 = calls w1c @ new" "produced_ids new = [m_routeCounter r1c + 1]" by blast
  have turn: "ThreadFunc_turn False ?env r1 w1 = Inr (Again, r2, w2)"
    using f wk by (cases "m_clearState r1") (simp_all add: ThreadFunc_turn_def r1c_def w1c_def)
  have "run fmt False [ex_request, ActWorker ?env] (r, w) = Inr (r2, w2)"
    using req turn by (simp add: ex_request_def)
  moreover have "m_router r2 = Some router" "\<not> m_threadExit r2"
    "m_routeCounter r2 = m_routeCounter r + 1"
    using r2 g c e by simp_all
  moreover have "produced_ids (calls w2) = produced_ids (calls w) @ [m_routeCounter r + 1]"
    using n pc c by (simp add: produced_ids_append)
  ultimately show ?thesis by blast
qed

lemma ex_rounds_Suc: "ex_rounds (Suc n) = [ex_request, ActWorker (ex_env (Returned NoError) [])] @ ex_rounds n"
  by (simp add: ex_rounds_def)

lemma ids_from_Suc_front: "ids_from c (Suc n) = (c + 1) # ids_from (c + 1) n"
  using ids_from_add [of c 1 n] by (simp add: ids_from_1)

lemma run_ex_rounds:
  "m_router r = Some router \<Longrightarrow> \<not> m_threadExit r \<Longrightarrow>
   \<exists>r' w'. run fmt False (ex_rounds n) (r, w) = Inr (r', w') \<and>
           produced_ids (calls w') = produced_ids (calls w) @ ids_from (m_routeCounter r) n"
proof (induction n arbitrary: r w)
  case 0
  then show ?case by (simp add: ex_rounds_def ids_from_0)
next
  case (Suc n)
  from ex_round [OF Suc.prems, of fmt w] obtain r1 w1 where
    1: "run fmt False [ex_request, ActWorker (ex_env (Returned NoError) [])] (r, w) = Inr (r1, w1)"
       "m_router r1 = Some router" "\<not> m_threadExit r1"
       "m_routeCounter r1 = m_routeCounter r + 1"
       "produced_ids (calls w1) = produced_ids (calls w) @ [m_routeCounter r + 1]"
    by blast
  from Suc.IH [OF 1(2,3), of w1] obtain r' w' where
    2: "run fmt False (ex_rounds n) (r1, w1) = Inr (r', w')"
       "produced_ids (calls w') = produced_ids (calls w1) @ ids_from (m_routeCounter r1) n"
    by blast
  have "run fmt False (ex_rounds (Suc n)) (r, w) = Inr (r', w')"
    unfolding ex_rounds_Suc run_append using 1(1) 2(1) by simp
  moreover have "produced_ids (calls w') = produced_ids (calls w) @ ids_from (m_routeCounter r) (Suc n)"
    using 1(4,5) 2(2) by (simp add: ids_from_Suc_front)
  ultimately show ?case by blast
qed

lemma ids_wrap: "(of_nat (Suc (2 ^ 64)) :: 64 word) = 1"
  by simp

lemma ids_from_wrapped:
  "\<not> sorted_wrt (<) (ids_from 0 (2 ^ 64 + 1)) \<and> \<not> distinct (ids_from 0 (2 ^ 64 + 1))"
proof -
  let ?xs = "ids_from 0 (2 ^ 64 + 1)"
  have len: "length ?xs = 2 ^ 64 + 1" by (simp add: length_ids_from)
  have a: "?xs ! 0 = 1" using nth_ids_from [of 0 "2 ^ 64 + 1" 0] by simp
  have b: "?xs ! (2 ^ 64) = 1"
    using nth_ids_from [of "2 ^ 64" "2 ^ 64 + 1" 0] ids_wrap by (simp del: of_nat_Suc of_nat_power)
  have lt: "(0::nat) < 2 ^ 64" "(2::nat) ^ 64 < length ?xs" by (simp_all add: length_ids_from)
  have lt0: "0 < length ?xs" by (simp add: length_ids_from)
  have "\<not> distinct ?xs"
  proof
    assume d: "distinct ?xs"
    from nth_eq_iff_index_eq [OF d lt0 lt(2)]
    have "(?xs ! 0 = ?xs ! (2 ^ 64)) = ((0::nat) = 2 ^ 64)" .
    with a b show False by simp
  qed
  moreover have "\<not> sorted_wrt (<) ?xs"
  proof
    assume s: "sorted_wrt (<) ?xs"
    from sorted_wrt_nth_less [OF s lt(1) lt(2)]
    have "?xs ! 0 < ?xs ! (2 ^ 64)" .
    with a b show False by simp
  qed
  ultimately show ?thesis by blast
qed

text \<open>
  Claim C6, as stated, fails where the counter wraps: it is a 64-bit unsigned integer.
  From the constructed dispatcher, with an engine installed, file and execute the same
  request \<open>2 ^ 64 + 1\<close> times: the last route gets the id 1 again, so the ids are
  neither strictly increasing nor unique.
\<close>

theorem route_ids_wrap_counterexample:
  "(case run ex_fmt False (ActSetRouter (Some ex_router) None # ex_rounds (2 ^ 64 + 1))
           (ex_dispatcher, ex_world) of
      Inr (r, w) \<Rightarrow>
        \<not> sorted_wrt (<) (produced_ids (calls w)) \<and> \<not> distinct (produced_ids (calls w))
    | Inl e \<Rightarrow> False)"
proof -
  obtain r0 w0 where s: "SetRouter (Some ex_router) None ex_dispatcher ex_world = (r0, w0)"
    by (cases "SetRouter (Some ex_router) None ex_dispatcher ex_world")
  then have f: "m_router r0 = Some ex_router" "\<not> m_threadExit r0" "m_routeCounter r0 = 0"
    "calls w0 = []"
    by (auto simp: SetRouter_def ResetDelegate_def ex_dispatcher_def AsyncRouter_new_def ex_world_def)
  from run_ex_rounds [OF f(1,2), of ex_fmt "2 ^ 64 + 1" w0] obtain r' w' where
    r: "run ex_fmt False (ex_rounds (2 ^ 64 + 1)) (r0, w0) = Inr (r', w')"
    and p: "produced_ids (calls w') = ids_from 0 (2 ^ 64 + 1)"
    using f by auto
  have "run ex_fmt False (ActSetRouter (Some ex_router) None # ex_rounds (2 ^ 64 + 1))
           (ex_dispatcher, ex_world) = Inr (r', w')"
    using s r by simp
  with p ids_from_wrapped show ?thesis by simp
qed

text \<open>
  Claim C6, amended. The route counter of a constructed dispatcher is 0. Along any run
  of the system (calls of the public interface, turns of the worker, tasks of the GUI
  thread) from a state with counter \<open>c\<close>, the routes handed to the engine are tagged
  \<open>c + 1, c + 2, ...\<close> in this order (each with the value of the counter before its
  execution plus one, so the first route of a dispatcher has id 1), and the counter
  ends at \<open>c\<close> plus the number of executed requests; the arithmetic is modulo
  \<open>2 ^ 64\<close>. As long as \<open>c\<close> plus that number stays below \<open>2 ^ 64\<close> the ids are
  strictly increasing and unique.
\<close>

theorem route_ids_increase_until_wrap:
  assumes "run fmt dbg acts (r, w) = Inr (r', w')"
  shows "m_routeCounter (AsyncRouter_new statisticsCallback pointCheckCallback checkpoints0
           direction0 adjust0) = 0 \<and>
         produced_ids (added (calls w) (calls w')) =
           ids_from (m_routeCounter r) (length (produced_ids (added (calls w) (calls w')))) \<and>
         m_routeCounter r' =
           m_routeCounter r + of_nat (length (produced_ids (added (calls w) (calls w')))) \<and>
         (unat (m_routeCounter r) + length (produced_ids (added (calls w) (calls w'))) < 2 ^ 64 \<longrightarrow>
            sorted_wrt (<) (produced_ids (added (calls w) (calls w'))) \<and>
            distinct (produced_ids (added (calls w) (calls w'))))"
proof -
  from run_ids [OF assms] obtain new n where
    c: "calls w' = calls w @ new" and p: "produced_ids new = ids_from (m_routeCounter r) n"
    and cnt: "m_routeCounter r' = m_routeCounter r + of_nat n" by auto
  from c have a: "added (calls w) (calls w') = new" by (simp add: added_append)
  from p have n: "length (produced_ids new) = n" by (simp add: length_ids_from)
  have 0: "m_routeCounter (AsyncRouter_new statisticsCallback pointCheckCallback checkpoints0
           direction0 adjust0) = 0"
    by (simp add: AsyncRouter_new_def)
  have s: "unat (m_routeCounter r) + n < 2 ^ 64 \<longrightarrow>
            sorted_wrt (<) (ids_from (m_routeCounter r) n) \<and> distinct (ids_from (m_routeCounter r) n)"
    using ids_from_sorted ids_from_distinct by blast
  from 0 p cnt s show ?thesis
    unfolding a n by (simp add: p)
qed

theorem route_ids_increase_until_wrap_witness:
  "m_routeCounter ex_dispatcher = 0 \<and>
   (\<exists>r' w'. run ex_fmt False (ActSetRouter (Some ex_router) None # ex_rounds 2)
                (ex_dispatcher, ex_world) = Inr (r', w') \<and>
            produced_ids (added (calls ex_world) (calls w')) = [1, 2] \<and>
            m_routeCounter r' = 2 \<and>
            sorted_wrt (<) (produced_ids (added (calls ex_world) (calls w'))) \<and>
            distinct (produced_ids (added (calls ex_world) (calls w'))))"
proof -
  obtain r0 w0 where s: "SetRouter (Some ex_router) None ex_dispatcher ex_world = (r0, w0)"
    by (cases "SetRouter (Some ex_router) None ex_dispatcher ex_world")
  then have f: "m_router r0 = Some ex_router" "\<not> m_threadExit r0" "m_routeCounter r0 = 0"
    "calls w0 = []"
    by (auto simp: SetRouter_def ResetDelegate_def ex_dispatcher_def AsyncRouter_new_def ex_world_def)
  from run_ex_rounds [OF f(1,2), of ex_fmt 2 w0] obtain r' w' where
    r: "run ex_fmt False (ex_rounds 2) (r0, w0) = Inr (r', w')"
    and p: "produced_ids (calls w') = ids_from 0 2"
    using f by auto
  have run: "run ex_fmt False (ActSetRouter (Some ex_router) None # ex_rounds 2)
           (ex_dispatcher, ex_world) = Inr (r', w')"
    using s r by simp
  have ids: "ids_from 0 2 = [1, 2]"
    by (simp add: ids_from_def upt_rec)
  have c0: "m_routeCounter ex_dispatcher = 0" "calls ex_world = []"
    by (simp_all add: ex_dispatcher_def AsyncRouter_new_def ex_world_def)
  let ?ids = "produced_ids (added (calls ex_world) (calls w'))"
  have pi: "?ids = [1, 2]"
    using p ids c0 by (simp add: added_def)
  then have len: "length ?ids = 2" by simp
  from route_ids_increase_until_wrap [OF run, of "Some 0" None ex_checkpoints ex_point False]
  have cnt: "m_routeCounter r' = m_routeCounter ex_dispatcher + of_nat (length ?ids)"
    and imp: "unat (m_routeCounter ex_dispatcher) + length ?ids < 2 ^ 64 \<longrightarrow>
                sorted_wrt (<) ?ids \<and> distinct ?ids"
    by blast+
  from cnt have c2: "m_routeCounter r' = 2" unfolding len c0(1) by simp
  have "unat (m_routeCounter ex_dispatcher) + length ?ids < 2 ^ 64" unfolding len c0(1) by simp
  with imp have sd: "sorted_wrt (<) ?ids \<and> distinct ?ids" by blast
  from c0(1) run pi c2 sd show ?thesis by blast
qed

end
